theory Spec2Isabelle
  imports Complex_Main "HOL-Library.AList"
begin

section \<open>The deferred-computation graph of \<open>ee.Image\<close> (javascript/src/image.js)\<close>

text \<open>
  The development embeds the constructor \<open>ee.Image\<close> and the functions
  \<open>ee.Image.initialize\<close>, \<open>ee.Image.reset\<close>, \<open>ee.Image.rgb\<close>, \<open>ee.Image.cat\<close>,
  \<open>ee.Image.combine_\<close>, \<open>ee.Image.prototype.select\<close>, \<open>ee.Image.prototype.expression\<close>
  and \<open>ee.Image.prototype.clip\<close> of image.js.

  JavaScript values are a datatype; an exception is a value of the type \<open>error\<close>; the
  mutable state of the page (the identity of the next object, the flag
  \<open>ee.Image.initialized_\<close> and the members installed on \<open>ee.Image\<close>) is a record that
  every function takes and returns. A function returns the pair of its outcome and the
  state it leaves behind, so that the side effects made before a \<open>throw\<close> are kept.

  Isabelle refuses names that end in an underscore: \<open>ee.Image.combine_\<close> is \<open>combine\<close>
  and \<open>ee.Image.initialized_\<close> is \<open>initialized\<close>. The constructor is \<open>ee_Image\<close>.
\<close>

subsection \<open>Values\<close>

text \<open>
  A signature, as \<open>getSignature\<close> in \<open>expression\<close> builds it:
  \<open>{name, args: [{name, type, optional}], returns}\<close>.
\<close>

record argspec =
  arg_name :: string
  arg_type :: string
  arg_optional :: bool

record signature =
  sig_name :: string
  sig_args :: "argspec list"
  sig_returns :: string

text \<open>
  The class of a computed object: \<open>ee.Image\<close>, or another class of the
  \<open>ee.ComputedObject\<close> family, given by what its \<open>name()\<close> returns.
\<close>

datatype klass = ImageClass | OtherClass string

text \<open>
  A function is a remote operation known by its name (\<open>new ee.ApiFunction(name)\<close>; the
  class is defined outside image.js, and section 3 gives a call node the name of its
  operation) or the function that \<open>expression\<close> makes by hand: its \<open>encode\<close> delegates to
  the body and its \<open>getSignature\<close> returns the synthesized signature.

  A computed object has the fields \<open>func\<close>, \<open>args\<close> and \<open>varName\<close> that the constructor
  reads, and an identity \<open>oid\<close>: two objects with the same fields and different identities
  are different JavaScript objects. An object (\<open>Obj\<close>) is the list of its enumerable
  properties in enumeration order, with distinct keys. Numbers are reals (no NaN, no
  infinities: the code only tests whether a value is a number and whether it is truthy).
\<close>

datatype func = ApiFunction string | ExprFunction cobj signature
  and cobj = ComputedObject (oid: nat) (klass: klass) (func: "func option")
               (args: "(string \<times> jsvalue) list option") (varName: "string option")
  and jsvalue = Undefined | Null | Bool bool | Num real | Str string
    | Arr "jsvalue list" | Obj "(string \<times> jsvalue) list" | Computed cobj

text \<open>
  One constructor for each \<open>throw\<close> of image.js, carrying what its message prints, one
  for each failure of the call builder, and \<open>ForeignError\<close> for the exceptions of the
  collaborators outside this core (the constructor of \<open>ee.Geometry\<close>).
\<close>

datatype error =
    UnrecognizedArgumentType jsvalue
  | UnrecognizedArgumentTypes "jsvalue list"
  | TooManyConstructorArguments nat
  | CombineZeroImages
  | IllegalSelectArgument jsvalue
  | NoSuchMethod string
  | UnknownFunction string
  | TooManyArguments string nat
  | MissingArgument string string
  | UnrecognizedArguments string "string list"
  | ForeignError string

record gstate =
  next_id :: nat
  initialized :: bool
  members :: "(string \<times> string) list"

type_synonym registry = "(string \<times> signature) list"
type_synonym 'a result = "(error + 'a) \<times> gstate"

text \<open>\<open>ee.Image.prototype.name\<close> returns \<open>'Image'\<close>; another class returns its own name.\<close>

fun name :: "cobj \<Rightarrow> string" where
  "name (ComputedObject _ ImageClass _ _ _) = ''Image''"
| "name (ComputedObject _ (OtherClass n) _ _ _) = n"

text \<open>
  Modelled from the spec: \<open>ee.Types.isNumber\<close> and \<open>ee.Types.isString\<close> are defined
  outside image.js. Section 4.1 dispatches on "value is numeric" and "value is a string".
\<close>

fun isNumber :: "jsvalue \<Rightarrow> bool" where
  "isNumber (Num _) = True"
| "isNumber _ = False"

fun isString :: "jsvalue \<Rightarrow> bool" where
  "isString (Str _) = True"
| "isString _ = False"

text \<open>\<open>v instanceof ee.ComputedObject\<close>.\<close>

fun is_ComputedObject :: "jsvalue \<Rightarrow> bool" where
  "is_ComputedObject (Computed _) = True"
| "is_ComputedObject _ = False"

text \<open>The truth value of \<open>if (v)\<close>.\<close>

fun truthy :: "jsvalue \<Rightarrow> bool" where
  "truthy Undefined = False"
| "truthy Null = False"
| "truthy (Bool b) = b"
| "truthy (Num n) = (n \<noteq> 0)"
| "truthy (Str s) = (s \<noteq> [])"
| "truthy _ = True"

text \<open>\<open>arguments[i]\<close>: \<open>undefined\<close> past the end.\<close>

definition nth_arg :: "jsvalue list \<Rightarrow> nat \<Rightarrow> jsvalue" where
  "nth_arg arguments i = (if i < length arguments then arguments ! i else Undefined)"

text \<open>\<open>v instanceof ee.Image\<close>, with the object when it holds.\<close>

definition as_Image :: "jsvalue \<Rightarrow> cobj option" where
  "as_Image v =
     (case v of Computed x \<Rightarrow> if klass x = ImageClass then Some x else None | _ \<Rightarrow> None)"

subsection \<open>Initialization\<close>

text \<open>
  Modelled from the spec: \<open>ee.ApiFunction.importApi\<close> and \<open>ee.ApiFunction.clearApi\<close> are
  defined outside image.js. Section 4.2: for every signature of the registry whose namespace
  matches, a member is installed under the operation's name, optionally prefixed;
  \<open>unbind\<close> removes all previously installed members. An operation \<open>Namespace.op\<close> has the
  namespace before its first dot and the name after it. The installed members are kept
  as the list of the member names with the operation each one is bound to.
\<close>

definition op_namespace :: "string \<Rightarrow> string" where
  "op_namespace nm = takeWhile (\<lambda>c. c \<noteq> CHR ''.'') nm"

definition op_member :: "string \<Rightarrow> string" where
  "op_member nm = drop 1 (dropWhile (\<lambda>c. c \<noteq> CHR ''.'') nm)"

definition importApi ::
  "registry \<Rightarrow> string \<Rightarrow> string \<Rightarrow> (string \<times> string) list \<Rightarrow> (string \<times> string) list" where
  "importApi reg prefix prepend target =
     foldl (\<lambda>tgt nm. if CHR ''.'' \<in> set nm \<and> op_namespace nm = prefix
                      then AList.update (prepend @ op_member nm) nm tgt else tgt)
           target (map fst reg)"

definition clearApi :: "(string \<times> string) list \<Rightarrow> (string \<times> string) list" where
  "clearApi target = []"

definition initialize :: "registry \<Rightarrow> gstate \<Rightarrow> gstate" where
  "initialize reg st =
     (if \<not> initialized st
      then st\<lparr>members := importApi reg ''Window'' ''focal_'' (importApi reg ''Image'' [] (members st)),
              initialized := True\<rparr>
      else st)"

definition reset :: "gstate \<Rightarrow> gstate" where
  "reset st = st\<lparr>members := clearApi (members st), initialized := False\<rparr>"

subsection \<open>Building nodes\<close>

text \<open>
  Modelled from the spec: the constructor of \<open>ee.ComputedObject\<close>, which
  \<open>goog.base(this, func, args, varName)\<close> calls, is defined outside image.js. Section 3:
  an image wraps one root node, a call with its operation and named arguments or a
  reference; section 4.1: the constructor adopts the call and the arguments it is given.
  The fields \<open>func\<close>, \<open>args\<close> and \<open>varName\<close> of \<open>this\<close>, which is an \<open>ee.Image\<close>, are set. The
  object gets its identity here: an object that the constructor drops (it returns
  another one) is never seen.
\<close>

definition goog_base ::
  "func option \<Rightarrow> (string \<times> jsvalue) list option \<Rightarrow> string option \<Rightarrow> gstate \<Rightarrow> cobj result" where
  "goog_base f a v st =
     (Inr (ComputedObject (next_id st) ImageClass f a v), st\<lparr>next_id := Suc (next_id st)\<rparr>)"

text \<open>
  Modelled from the spec: the call builder (\<open>ee.ApiFunction._call\<close>,
  \<open>ee.ApiFunction._apply\<close>, \<open>ee.Function.prototype.apply\<close> and the argument promoter) is
  defined outside image.js. Section 4.2: a call builds a Call node, mapping positional arguments
  to names by the signature's declared parameter order and promoting each value against
  the declared type of its parameter; section 3: the operation of a Call node exists in
  the registry. \<open>new_ComputedObject\<close> is the node before the promotion to its return
  type, \<open>getSignature\<close> finds the signature of a function, \<open>nameArgs\<close> names positional
  arguments.
\<close>

definition new_ComputedObject :: "func \<Rightarrow> (string \<times> jsvalue) list \<Rightarrow> gstate \<Rightarrow> cobj \<times> gstate" where
  "new_ComputedObject f a st =
     (ComputedObject (next_id st) (OtherClass ''ComputedObject'') (Some f) (Some a) None,
      st\<lparr>next_id := Suc (next_id st)\<rparr>)"

definition getSignature :: "registry \<Rightarrow> func \<Rightarrow> error + signature" where
  "getSignature reg f =
     (case f of
        ApiFunction nm \<Rightarrow>
          (case map_of reg nm of None \<Rightarrow> Inl (UnknownFunction nm) | Some sig \<Rightarrow> Inr sig)
      | ExprFunction body sig \<Rightarrow> Inr sig)"

text \<open>
  Modelled from the spec: the constructor of \<open>ee.ApiFunction\<close>, which
  \<open>new ee.ApiFunction(name)\<close> calls, is defined outside image.js. Section 3: the operation
  name of a Call node must exist in the signature registry. \<open>new_ApiFunction reg nm\<close> looks
  the operation up and throws when the registry does not declare it, as \<open>getSignature\<close>
  does for a call; no node is built for an unknown operation.
\<close>

definition new_ApiFunction :: "registry \<Rightarrow> string \<Rightarrow> error + func" where
  "new_ApiFunction reg nm =
     (case map_of reg nm of None \<Rightarrow> Inl (UnknownFunction nm) | Some sig \<Rightarrow> Inr (ApiFunction nm))"

definition nameArgs :: "argspec list \<Rightarrow> jsvalue list \<Rightarrow> (string \<times> jsvalue) list" where
  "nameArgs specs positional =
     foldl (\<lambda>namedArgs (n, v). AList.update n v namedArgs) [] (zip (map arg_name specs) positional)"

subsection \<open>The constructor, combine and select\<close>

text \<open>
  The weight of a value bounds the depth of the calls that the constructor makes on it:
  only an array (and \<open>undefined\<close>, which stands for the empty image) makes the
  constructor call itself on other values.
\<close>

fun weight :: "jsvalue \<Rightarrow> nat" where
  "weight (Arr xs) = Suc (sum_list (map weight xs))"
| "weight Undefined = 1"
| "weight _ = 0"

definition wsum :: "jsvalue list \<Rightarrow> nat" where
  "wsum xs = sum_list (map weight xs)"

text \<open>
  \<open>ee_Image reg arguments\<close> is \<open>new ee.Image(...arguments)\<close>, and also the call without
  \<open>new\<close>, which constructs the same way. \<open>map_Image\<close> is the \<open>goog.array.map\<close> of the
  constructor over the elements of an array; \<open>combine_loop\<close> is the \<open>for\<close> loop of
  \<open>combine_\<close> from index \<open>i\<close>; \<open>select reg this arguments\<close> is \<open>this.select(...arguments)\<close>.
\<close>

text \<open>
  Modelled from the spec: \<open>ApiFunction_call\<close>, \<open>ApiFunction_apply\<close>, \<open>Function_apply\<close>,
  \<open>promoteArgs\<close> and \<open>promote\<close> are the call builder, which is defined outside image.js
  (section 4.2, as above). They stand in one recursion with the functions of image.js,
  which call them and which they call: a value whose declared type is \<open>Image\<close> is promoted
  by the constructor (as \<open>expression\<close> does by hand); values of the other declared types
  are outside this core and pass as they are. The node of a call is an object of the
  declared return type: for \<open>Image\<close>, the constructor reinterprets the node as an image.
  The specification gives no outcome for a call that does not fit the registry; here a
  call fails when its operation is not in the registry, when it has more positional
  arguments than declared parameters, when a required parameter is missing, and when a
  named argument is not declared. Every theorem below that needs a call to succeed
  states the signature it assumes.
\<close>

function ee_Image :: "registry \<Rightarrow> jsvalue list \<Rightarrow> gstate \<Rightarrow> cobj result"
  and map_Image :: "registry \<Rightarrow> jsvalue list \<Rightarrow> gstate \<Rightarrow> cobj list result"
  and combine :: "registry \<Rightarrow> jsvalue list \<Rightarrow> jsvalue \<Rightarrow> gstate \<Rightarrow> cobj result"
  and combine_loop :: "registry \<Rightarrow> jsvalue list \<Rightarrow> nat \<Rightarrow> cobj \<Rightarrow> gstate \<Rightarrow> cobj result"
  and select :: "registry \<Rightarrow> cobj \<Rightarrow> jsvalue list \<Rightarrow> gstate \<Rightarrow> cobj result"
  and ApiFunction_call :: "registry \<Rightarrow> string \<Rightarrow> jsvalue list \<Rightarrow> gstate \<Rightarrow> cobj result"
  and ApiFunction_apply :: "registry \<Rightarrow> string \<Rightarrow> (string \<times> jsvalue) list \<Rightarrow> gstate \<Rightarrow> cobj result"
  and Function_apply :: "registry \<Rightarrow> func \<Rightarrow> (string \<times> jsvalue) list \<Rightarrow> gstate \<Rightarrow> cobj result"
  and promoteArgs ::
    "registry \<Rightarrow> signature \<Rightarrow> argspec list \<Rightarrow> (string \<times> jsvalue) list \<Rightarrow> (string \<times> jsvalue) list
       \<Rightarrow> gstate \<Rightarrow> (string \<times> jsvalue) list result"
  and promote :: "registry \<Rightarrow> jsvalue \<Rightarrow> string \<Rightarrow> gstate \<Rightarrow> jsvalue result"
where
  "ee_Image reg arguments st =
     (let opt_args = nth_arg arguments 0 in
      case as_Image opt_args of
        Some img \<Rightarrow> (Inr img, st)
      | None \<Rightarrow>
         (let st1 = initialize reg st; argCount = length arguments in
          if argCount = 0 \<or> (argCount = 1 \<and> opt_args = Undefined) then
            (case new_ApiFunction reg ''Image.mask'' of
               Inl e \<Rightarrow> (Inl e, st1)
             | Inr f \<Rightarrow>
                (case ee_Image reg [Num 0] st1 of
                   (Inl e, s) \<Rightarrow> (Inl e, s)
                 | (Inr image_arg, s) \<Rightarrow>
                    (case ee_Image reg [Num 0] s of
                       (Inl e, s') \<Rightarrow> (Inl e, s')
                     | (Inr mask_arg, s') \<Rightarrow>
                         goog_base (Some f)
                           (Some [(''image'', Computed image_arg), (''mask'', Computed mask_arg)])
                           None s')))
          else if argCount = 1 then
            (if isNumber opt_args then
               (case new_ApiFunction reg ''Image.constant'' of
                  Inl e \<Rightarrow> (Inl e, st1)
                | Inr f \<Rightarrow> goog_base (Some f) (Some [(''value'', opt_args)]) None st1)
             else if isString opt_args then
               (case new_ApiFunction reg ''Image.load'' of
                  Inl e \<Rightarrow> (Inl e, st1)
                | Inr f \<Rightarrow> goog_base (Some f) (Some [(''id'', opt_args)]) None st1)
             else case opt_args of
               Arr elems \<Rightarrow>
                 (case map_Image reg elems st1 of
                    (Inl e, s) \<Rightarrow> (Inl e, s)
                  | (Inr images, s) \<Rightarrow> combine reg (map Computed images) Undefined s)
             | Computed obj \<Rightarrow>
                 if name obj = ''Array'' then
                   (case new_ApiFunction reg ''Image.constant'' of
                      Inl e \<Rightarrow> (Inl e, st1)
                    | Inr f \<Rightarrow> goog_base (Some f) (Some [(''value'', opt_args)]) None st1)
                 else goog_base (func obj) (args obj) (varName obj) st1
             | _ \<Rightarrow> (Inl (UnrecognizedArgumentType opt_args), st1))
          else if argCount = 2 then
            (let id_arg = nth_arg arguments 0; version = nth_arg arguments 1 in
             if isString id_arg \<and> isNumber version then
               (case new_ApiFunction reg ''Image.load'' of
                  Inl e \<Rightarrow> (Inl e, st1)
                | Inr f \<Rightarrow>
                    goog_base (Some f) (Some [(''id'', id_arg), (''version'', version)]) None st1)
             else (Inl (UnrecognizedArgumentTypes arguments), st1))
          else (Inl (TooManyConstructorArguments argCount), st1)))"
| "map_Image reg elems st =
     (case elems of
        [] \<Rightarrow> (Inr [], st)
      | elem # rest \<Rightarrow>
         (case ee_Image reg [elem] st of
            (Inl e, s) \<Rightarrow> (Inl e, s)
          | (Inr img, s) \<Rightarrow>
             (case map_Image reg rest s of
                (Inl e, s') \<Rightarrow> (Inl e, s')
              | (Inr imgs, s') \<Rightarrow> (Inr (img # imgs), s'))))"
| "combine reg images opt_names st =
     (if length images = 0 then (Inl CombineZeroImages, st)
      else case ee_Image reg [images ! 0] st of
        (Inl e, s) \<Rightarrow> (Inl e, s)
      | (Inr result, s) \<Rightarrow>
         (case combine_loop reg images 1 result s of
            (Inl e, s') \<Rightarrow> (Inl e, s')
          | (Inr result', s') \<Rightarrow>
             if truthy opt_names then
               (if klass result' = ImageClass
                then select reg result' [Arr [Str ''.*''], opt_names] s'
                else (Inl (NoSuchMethod ''select''), s'))
             else (Inr result', s')))"
| "combine_loop reg images i result st =
     (if i < length images then
        (case ApiFunction_call reg ''Image.addBands'' [Computed result, images ! i] st of
           (Inl e, s) \<Rightarrow> (Inl e, s)
         | (Inr result', s) \<Rightarrow> combine_loop reg images (Suc i) result' s)
      else (Inr result, st))"
| "select reg this arguments st =
     (let opt_names = nth_arg arguments 1;
          opt_selectors = (if nth_arg arguments 0 = Undefined then Arr [] else nth_arg arguments 0);
          select_args = [(''input'', Computed this), (''bandSelectors'', opt_selectors)]
      in if isString opt_selectors \<or> isNumber opt_selectors then
           (case find (\<lambda>v. \<not> isString v \<and> \<not> isNumber v \<and> \<not> is_ComputedObject v) arguments of
              Some bad \<Rightarrow> (Inl (IllegalSelectArgument bad), st)
            | None \<Rightarrow>
               ApiFunction_apply reg ''Image.select''
                 (AList.update ''bandSelectors'' (Arr arguments) select_args) st)
         else if truthy opt_names then
           ApiFunction_apply reg ''Image.select'' (AList.update ''newNames'' opt_names select_args) st
         else ApiFunction_apply reg ''Image.select'' select_args st)"
| "ApiFunction_call reg nm positional st =
     (case getSignature reg (ApiFunction nm) of
        Inl e \<Rightarrow> (Inl e, st)
      | Inr sig \<Rightarrow>
         if length (sig_args sig) < length positional
         then (Inl (TooManyArguments nm (length positional)), st)
         else Function_apply reg (ApiFunction nm) (nameArgs (sig_args sig) positional) st)"
| "ApiFunction_apply reg nm named st = Function_apply reg (ApiFunction nm) named st"
| "Function_apply reg f named st =
     (case getSignature reg f of
        Inl e \<Rightarrow> (Inl e, st)
      | Inr sig \<Rightarrow>
         (case promoteArgs reg sig (sig_args sig) named [] st of
            (Inl e, s) \<Rightarrow> (Inl e, s)
          | (Inr promoted, s) \<Rightarrow>
             (let unknown = filter (\<lambda>k. k \<notin> set (map arg_name (sig_args sig))) (map fst named) in
              if unknown \<noteq> [] then (Inl (UnrecognizedArguments (sig_name sig) unknown), s)
              else case new_ComputedObject f promoted s of
                (result, s') \<Rightarrow>
                  if sig_returns sig = ''Image'' then ee_Image reg [Computed result] s'
                  else (Inr result, s'))))"
| "promoteArgs reg sig specs named promoted st =
     (case specs of
        [] \<Rightarrow> (Inr promoted, st)
      | spec # rest \<Rightarrow>
         (case map_of named (arg_name spec) of
            Some v \<Rightarrow>
              (case promote reg v (arg_type spec) st of
                 (Inl e, s) \<Rightarrow> (Inl e, s)
               | (Inr v', s) \<Rightarrow>
                   promoteArgs reg sig rest named (AList.update (arg_name spec) v' promoted) s)
          | None \<Rightarrow>
              if arg_optional spec then promoteArgs reg sig rest named promoted st
              else (Inl (MissingArgument (arg_name spec) (sig_name sig)), st)))"
| "promote reg v ty st =
     (if ty = ''Image'' then
        (case ee_Image reg [v] st of
           (Inl e, s) \<Rightarrow> (Inl e, s)
         | (Inr img, s) \<Rightarrow> (Inr (Computed img), s))
      else (Inr v, st))"
  by pat_completeness auto

lemma wsum_simps [simp]:
  "wsum [] = 0" "wsum (x # xs) = weight x + wsum xs" "weight (Arr xs) = Suc (wsum xs)"
  by (simp_all add: wsum_def)

declare weight.simps(1) [simp del]

lemma weight_nth_le: "i < length xs \<Longrightarrow> weight (xs ! i) \<le> wsum xs"
  by (induction xs arbitrary: i) (auto simp: nth_Cons split: nat.splits intro: le_trans trans_le_add2)

lemma weight_hd_le: "xs \<noteq> [] \<Longrightarrow> weight (xs ! 0) \<le> Suc (Suc (wsum xs + n))"
  by (cases xs) auto

lemma weight_two_le: "Suc 0 < length xs \<Longrightarrow> weight (xs ! 0) + weight (xs ! Suc 0) \<le> Suc (wsum xs)"
  by (cases xs; cases "tl xs") auto

lemma wsum_singleton: "length xs = Suc 0 \<Longrightarrow> wsum xs = weight (xs ! 0)"
  by (cases xs) auto

lemma weight_ArrD: "Arr xs = v \<Longrightarrow> weight v = Suc (wsum xs)"
  by auto

lemma wsum_Computed [simp]: "wsum (map Computed xs) = 0"
  by (induction xs) auto

lemma wsum_update_le: "wsum (map snd (AList.update k v al)) \<le> weight v + wsum (map snd al)"
  by (induction al) auto

lemma wsum_foldl_update_le:
  "wsum (map snd (foldl (\<lambda>acc (n, v). AList.update n v acc) acc kvs))
     \<le> wsum (map snd acc) + wsum (map snd kvs)"
proof (induction kvs arbitrary: acc)
  case Nil
  then show ?case by simp
next
  case (Cons kv kvs)
  obtain k v where kv: "kv = (k, v)" by (cases kv)
  have "wsum (map snd (foldl (\<lambda>acc (n, v). AList.update n v acc) (AList.update k v acc) kvs))
          \<le> wsum (map snd (AList.update k v acc)) + wsum (map snd kvs)"
    by (rule Cons.IH)
  also have "\<dots> \<le> (weight v + wsum (map snd acc)) + wsum (map snd kvs)"
    using wsum_update_le [of k v acc] by simp
  finally show ?case by (simp add: kv)
qed

lemma wsum_zip_le: "wsum (map snd (zip ns vs)) \<le> wsum vs"
proof (induction vs arbitrary: ns)
  case Nil
  then show ?case by simp
next
  case (Cons v vs)
  then show ?case by (cases ns) (auto intro: trans_le_add2)
qed

lemma wsum_nameArgs_le: "wsum (map snd (nameArgs specs positional)) \<le> wsum positional"
  unfolding nameArgs_def
  using wsum_foldl_update_le [of "[]" "zip (map arg_name specs) positional"]
        wsum_zip_le [of "map arg_name specs" positional]
  by simp

lemma weight_map_of_le: "map_of named k = Some v \<Longrightarrow> weight v \<le> wsum (map snd named)"
  by (induction named) (auto split: if_splits intro: trans_le_add2)

lemma lex3I:
  "a \<le> a' \<Longrightarrow> (a = a' \<Longrightarrow> b < b' \<or> (b = b' \<and> c < c'))
     \<Longrightarrow> ((a, b, c), (a', b', c')) \<in> less_than <*lex*> less_than <*lex*> less_than"
  by auto

text \<open>
  Every call goes to values of no greater weight; where the weight stays, the callee is
  lower in the order of the functions, or the loop has fewer rounds left.
\<close>

termination ee_Image
  apply (relation "inv_image (less_than <*lex*> less_than <*lex*> less_than)
    (\<lambda>x. case x of
       Inl (Inl (Inl (reg, arguments, st))) \<Rightarrow>
         (if arguments = [] then 1 else wsum arguments, 0::nat, 0::nat)
     | Inl (Inl (Inr (reg, elems, st))) \<Rightarrow> (wsum elems, 1, length elems)
     | Inl (Inr (Inl (reg, images, opt_names, st))) \<Rightarrow>
         (wsum images + (if truthy opt_names then 2 + weight opt_names else 0), 7, 0)
     | Inl (Inr (Inr (Inl (reg, images, i, result, st)))) \<Rightarrow> (wsum images, 6, length images - i)
     | Inl (Inr (Inr (Inr (reg, this, arguments, st)))) \<Rightarrow> (1 + wsum arguments, 5, 0)
     | Inr (Inl (Inl (reg, nm, positional, st))) \<Rightarrow> (wsum positional, 4, 0)
     | Inr (Inl (Inr (reg, nm, named, st))) \<Rightarrow> (wsum (map snd named), 4, 0)
     | Inr (Inr (Inl (reg, f, named, st))) \<Rightarrow> (wsum (map snd named), 3, 0)
     | Inr (Inr (Inr (Inl (reg, sig, specs, named, promoted, st)))) \<Rightarrow>
         (wsum (map snd named), 2, length specs)
     | Inr (Inr (Inr (Inr (reg, v, ty, st)))) \<Rightarrow> (weight v, 1, 0))")
  apply (intro wf_inv_image wf_lex_prod wf_less_than)
  apply (auto simp del: in_lex_prod less_than_iff
           simp add: nth_arg_def weight_nth_le weight_hd_le weight_two_le wsum_nameArgs_le
             weight_map_of_le wsum_singleton
           dest!: weight_ArrD intro!: lex3I intro: le_SucI trans_le_add1 split: if_splits)
  done

declare ee_Image.simps [simp del] map_Image.simps [simp del] combine.simps [simp del]
  combine_loop.simps [simp del] select.simps [simp del] ApiFunction_call.simps [simp del]
  ApiFunction_apply.simps [simp del] Function_apply.simps [simp del]
  promoteArgs.simps [simp del] promote.simps [simp del]

subsection \<open>rgb, cat, expression and clip\<close>

definition rgb :: "registry \<Rightarrow> jsvalue \<Rightarrow> jsvalue \<Rightarrow> jsvalue \<Rightarrow> gstate \<Rightarrow> cobj result" where
  "rgb reg r g b st =
     combine reg [r, g, b] (Arr [Str ''vis-red'', Str ''vis-green'', Str ''vis-blue'']) st"

definition cat :: "registry \<Rightarrow> jsvalue list \<Rightarrow> gstate \<Rightarrow> cobj result" where
  "cat reg var_args st = combine reg var_args Null st"

text \<open>
  \<open>expression_loop\<close> is the loop \<open>for (var name in opt_map)\<close> of \<open>expression\<close>: it pushes
  the name on \<open>vars\<close> and sets \<open>args[name]\<close> to the image of the value. Setting a property
  that exists replaces its value; a new property goes last (\<open>AList.update\<close>).
  \<open>opt_map\<close> is \<open>None\<close> when the argument is absent and \<open>Some m\<close> for an object with the
  properties \<open>m\<close>, in enumeration order.
\<close>

fun expression_loop ::
  "registry \<Rightarrow> (string \<times> jsvalue) list \<Rightarrow> string list \<Rightarrow> (string \<times> jsvalue) list \<Rightarrow> gstate
     \<Rightarrow> (string list \<times> (string \<times> jsvalue) list) result" where
  "expression_loop reg [] vars argmap st = (Inr (vars, argmap), st)"
| "expression_loop reg ((nm, v) # rest) vars argmap st =
     (case ee_Image reg [v] st of
        (Inl e, s) \<Rightarrow> (Inl e, s)
      | (Inr img, s) \<Rightarrow>
          expression_loop reg rest (vars @ [nm]) (AList.update nm (Computed img) argmap) s)"

definition expression_signature :: "string list \<Rightarrow> signature" where
  "expression_signature vars =
     \<lparr>sig_name = [],
      sig_args = map (\<lambda>n. \<lparr>arg_name = n, arg_type = ''Image'', arg_optional = False\<rparr>) vars,
      sig_returns = ''Image''\<rparr>"

definition expression ::
  "registry \<Rightarrow> cobj \<Rightarrow> string \<Rightarrow> (string \<times> jsvalue) list option \<Rightarrow> gstate \<Rightarrow> cobj result" where
  "expression reg this expr opt_map st =
     (let argName = ''DEFAULT_EXPRESSION_IMAGE'' in
      case expression_loop reg (case opt_map of None \<Rightarrow> [] | Some m \<Rightarrow> m)
             [argName] [(argName, Computed this)] st of
        (Inl e, s) \<Rightarrow> (Inl e, s)
      | (Inr (vars, argmap), s) \<Rightarrow>
         (case ApiFunction_call reg ''Image.parseExpression''
                 [Str expr, Str argName, Arr (map Str vars)] s of
            (Inl e, s') \<Rightarrow> (Inl e, s')
          | (Inr body, s') \<Rightarrow>
              Function_apply reg (ExprFunction body (expression_signature vars)) argmap s'))"

text \<open>
  \<open>clip\<close> takes the constructor of \<open>ee.Geometry\<close>, which belongs to the geometry value
  types outside this core, as the parameter \<open>Geometry\<close>: any function from a value and a
  state to an object or an exception.
\<close>

definition clip ::
  "(jsvalue \<Rightarrow> gstate \<Rightarrow> cobj result) \<Rightarrow> registry \<Rightarrow> cobj \<Rightarrow> jsvalue \<Rightarrow> gstate \<Rightarrow> cobj result" where
  "clip Geometry reg this geometry st =
     (case Geometry geometry st of
        (Inl e, s) \<Rightarrow> ApiFunction_call reg ''Image.clip'' [Computed this, geometry] s
      | (Inr g, s) \<Rightarrow> ApiFunction_call reg ''Image.clip'' [Computed this, Computed g] s)"

subsection \<open>The images of a list and the left fold of section 4.3\<close>

text \<open>
  The images \<open>Image(a1), ..., Image(an)\<close> of the elements of a list in the words of the
  specification (section 4.1: wrap each element as an image): the elements are taken
  from left to right, the image of each is built in the state that its predecessor
  left and goes behind the images built so far; the first failure is the result.
\<close>

definition Image_each :: "registry \<Rightarrow> jsvalue list \<Rightarrow> gstate \<Rightarrow> cobj list result" where
  "Image_each reg elems st =
     foldl (\<lambda>acc elem.
              case acc of
                (Inl e, s) \<Rightarrow> (Inl e, s)
              | (Inr images, s) \<Rightarrow>
                 (case ee_Image reg [elem] s of
                    (Inl e, s') \<Rightarrow> (Inl e, s')
                  | (Inr img, s') \<Rightarrow> (Inr (images @ [img]), s')))
       (Inr [], st) elems"

text \<open>
  The Combine algorithm in the words of the specification: start with the first image;
  for each subsequent image, \<open>result := addBands(result, image)\<close>, from left to right.
\<close>

fun addBands_fold :: "registry \<Rightarrow> cobj \<Rightarrow> jsvalue list \<Rightarrow> gstate \<Rightarrow> cobj result" where
  "addBands_fold reg result [] st = (Inr result, st)"
| "addBands_fold reg result (img # imgs) st =
     (case ApiFunction_call reg ''Image.addBands'' [Computed result, img] st of
        (Inl e, s) \<Rightarrow> (Inl e, s)
      | (Inr result', s) \<Rightarrow> addBands_fold reg result' imgs s)"

subsection \<open>Nodes and examples\<close>

text \<open>
  \<open>Image_node i f a\<close> is the image with identity \<open>i\<close> whose root is the call of the remote
  operation \<open>f\<close> with the named arguments \<open>a\<close>. \<open>empty_image n\<close> is the graph
  \<open>mask(image = constant(0), mask = constant(0))\<close> built from identity \<open>n\<close> on.
\<close>

definition Image_node :: "nat \<Rightarrow> string \<Rightarrow> (string \<times> jsvalue) list \<Rightarrow> cobj" where
  "Image_node i f a = ComputedObject i ImageClass (Some (ApiFunction f)) (Some a) None"

definition empty_image :: "nat \<Rightarrow> cobj" where
  "empty_image n =
     Image_node (n + 2) ''Image.mask''
       [(''image'', Computed (Image_node n ''Image.constant'' [(''value'', Num 0)])),
        (''mask'', Computed (Image_node (n + 1) ''Image.constant'' [(''value'', Num 0)]))]"

text \<open>
  The graph that the fold builds when every call of \<open>Image.addBands\<close> succeeds, with
  \<open>d\<close> and \<open>s\<close> the names of its two parameters and \<open>n\<close> the next identity: the result
  so far is the first argument of the next call, so the calls nest to the left. A call
  takes two identities, one for its node and one for the image that reinterprets it.
\<close>

fun addBands_graph :: "string \<Rightarrow> string \<Rightarrow> nat \<Rightarrow> cobj \<Rightarrow> cobj list \<Rightarrow> cobj" where
  "addBands_graph d s n result [] = result"
| "addBands_graph d s n result (img # imgs) =
     addBands_graph d s (n + 2)
       (Image_node (Suc n) ''Image.addBands'' [(d, Computed result), (s, Computed img)]) imgs"

text \<open>A registry, a state and two images on which the theorems are instantiated.\<close>

definition example_registry :: registry where
  "example_registry =
     [(''Image.constant'',
         \<lparr>sig_name = ''Image.constant'',
          sig_args = [\<lparr>arg_name = ''value'', arg_type = ''Object'', arg_optional = False\<rparr>],
          sig_returns = ''Image''\<rparr>),
      (''Image.load'',
         \<lparr>sig_name = ''Image.load'',
          sig_args = [\<lparr>arg_name = ''id'', arg_type = ''String'', arg_optional = False\<rparr>,
                      \<lparr>arg_name = ''version'', arg_type = ''Long'', arg_optional = True\<rparr>],
          sig_returns = ''Image''\<rparr>),
      (''Image.mask'',
         \<lparr>sig_name = ''Image.mask'',
          sig_args = [\<lparr>arg_name = ''image'', arg_type = ''Image'', arg_optional = False\<rparr>,
                      \<lparr>arg_name = ''mask'', arg_type = ''Image'', arg_optional = True\<rparr>],
          sig_returns = ''Image''\<rparr>),
      (''Image.addBands'',
         \<lparr>sig_name = ''Image.addBands'',
          sig_args = [\<lparr>arg_name = ''dstImg'', arg_type = ''Image'', arg_optional = False\<rparr>,
                      \<lparr>arg_name = ''srcImg'', arg_type = ''Image'', arg_optional = False\<rparr>],
          sig_returns = ''Image''\<rparr>),
      (''Image.select'',
         \<lparr>sig_name = ''Image.select'',
          sig_args = [\<lparr>arg_name = ''input'', arg_type = ''Image'', arg_optional = False\<rparr>,
                      \<lparr>arg_name = ''bandSelectors'', arg_type = ''List'', arg_optional = False\<rparr>,
                      \<lparr>arg_name = ''newNames'', arg_type = ''List'', arg_optional = True\<rparr>],
          sig_returns = ''Image''\<rparr>),
      (''Image.clip'',
         \<lparr>sig_name = ''Image.clip'',
          sig_args = [\<lparr>arg_name = ''input'', arg_type = ''Image'', arg_optional = False\<rparr>,
                      \<lparr>arg_name = ''geometry'', arg_type = ''Object'', arg_optional = True\<rparr>],
          sig_returns = ''Image''\<rparr>),
      (''Image.parseExpression'',
         \<lparr>sig_name = ''Image.parseExpression'',
          sig_args = [\<lparr>arg_name = ''expression'', arg_type = ''String'', arg_optional = False\<rparr>,
                      \<lparr>arg_name = ''argName'', arg_type = ''String'', arg_optional = True\<rparr>,
                      \<lparr>arg_name = ''vars'', arg_type = ''List'', arg_optional = True\<rparr>],
          sig_returns = ''Image''\<rparr>),
      (''Window.max'',
         \<lparr>sig_name = ''Window.max'',
          sig_args = [\<lparr>arg_name = ''image'', arg_type = ''Image'', arg_optional = False\<rparr>],
          sig_returns = ''Image''\<rparr>)]"

definition example_state :: gstate where
  "example_state = \<lparr>next_id = 0, initialized = False, members = []\<rparr>"

definition example_image :: cobj where
  "example_image = Image_node 100 ''Image.load'' [(''id'', Str ''abc'')]"

definition other_image :: cobj where
  "other_image = Image_node 101 ''Image.load'' [(''id'', Str ''xyz'')]"

text \<open>
  A constructor of geometries for the examples: it accepts an object with a type and
  coordinates, and throws on anything else.
\<close>

definition example_Geometry :: "jsvalue \<Rightarrow> gstate \<Rightarrow> cobj result" where
  "example_Geometry v st =
     (case v of
        Obj props \<Rightarrow>
          if map_of props ''type'' \<noteq> None \<and> map_of props ''coordinates'' \<noteq> None
          then (Inr (ComputedObject (next_id st) (OtherClass ''Geometry'') None (Some props) None),
                st\<lparr>next_id := Suc (next_id st)\<rparr>)
          else (Inl (ForeignError ''Invalid GeoJSON geometry''), st)
      | _ \<Rightarrow> (Inl (ForeignError ''Invalid GeoJSON geometry''), st))"

subsection \<open>Conditions on a call and on the registry\<close>

text \<open>
  \<open>promotes_to_itself named spec\<close>: the argument for the parameter \<open>spec\<close> is there and its
  promotion leaves it as it is (the declared type is not \<open>Image\<close>, or the value is an
  image), or the parameter is optional and has no argument. \<open>bind_args\<close> is the argument
  mapping of the node then: the arguments in the declared order of their parameters.
  \<open>addBands_returns_Image\<close>: the registry does not declare \<open>Image.addBands\<close> with a return
  type other than \<open>Image\<close>. \<open>declares reg nm\<close>: the registry has the operation \<open>nm\<close>.
\<close>

definition declares :: "registry \<Rightarrow> string \<Rightarrow> bool" where
  "declares reg nm = (map_of reg nm \<noteq> None)"

definition promotes_to_itself :: "(string \<times> jsvalue) list \<Rightarrow> argspec \<Rightarrow> bool" where
  "promotes_to_itself named spec =
     (case map_of named (arg_name spec) of
        Some v \<Rightarrow> arg_type spec \<noteq> ''Image'' \<or> as_Image v \<noteq> None
      | None \<Rightarrow> arg_optional spec)"

definition bind_args ::
  "argspec list \<Rightarrow> (string \<times> jsvalue) list \<Rightarrow> (string \<times> jsvalue) list \<Rightarrow> (string \<times> jsvalue) list" where
  "bind_args specs named promoted =
     foldl (\<lambda>acc spec. case map_of named (arg_name spec) of
                          Some v \<Rightarrow> AList.update (arg_name spec) v acc
                        | None \<Rightarrow> acc) promoted specs"

definition addBands_returns_Image :: "registry \<Rightarrow> bool" where
  "addBands_returns_Image reg =
     (case map_of reg ''Image.addBands'' of None \<Rightarrow> True | Some sig \<Rightarrow> sig_returns sig = ''Image'')"

section \<open>Properties\<close>

subsection \<open>The cases of the constructor\<close>

lemma next_id_initialize [simp]: "next_id (initialize reg st) = next_id st"
  by (simp add: initialize_def)

lemma initialize_next_id_update [simp]:
  "initialize reg (st\<lparr>next_id := n\<rparr>) = (initialize reg st)\<lparr>next_id := n\<rparr>"
  by (simp add: initialize_def)

lemma initialize_idem [simp]: "initialize reg' (initialize reg st) = initialize reg st"
  by (simp add: initialize_def)

lemma klass_Image_node [simp]: "klass (Image_node i f a) = ImageClass"
  by (simp add: Image_node_def)

lemma as_Image_Image_node [simp]: "as_Image (Computed (Image_node i f a)) = Some (Image_node i f a)"
  by (simp add: as_Image_def)

lemma ee_Image_instance:
  "klass x = ImageClass \<Longrightarrow> ee_Image reg (Computed x # rest) st = (Inr x, st)"
  by (subst ee_Image.simps) (simp add: nth_arg_def as_Image_def)

lemma new_ApiFunction_declared:
  "declares reg nm \<Longrightarrow> new_ApiFunction reg nm = Inr (ApiFunction nm)"
  by (auto simp: declares_def new_ApiFunction_def)

lemma new_ApiFunction_unknown:
  "\<not> declares reg nm \<Longrightarrow> new_ApiFunction reg nm = Inl (UnknownFunction nm)"
  by (auto simp: declares_def new_ApiFunction_def)

lemma ee_Image_Num:
  "declares reg ''Image.constant'' \<Longrightarrow>
   ee_Image reg [Num n] st =
     (Inr (Image_node (next_id st) ''Image.constant'' [(''value'', Num n)]),
      (initialize reg st)\<lparr>next_id := Suc (next_id st)\<rparr>)"
  by (subst ee_Image.simps)
     (simp add: nth_arg_def as_Image_def goog_base_def Image_node_def new_ApiFunction_declared)

lemma ee_Image_Str:
  "declares reg ''Image.load'' \<Longrightarrow>
   ee_Image reg [Str s] st =
     (Inr (Image_node (next_id st) ''Image.load'' [(''id'', Str s)]),
      (initialize reg st)\<lparr>next_id := Suc (next_id st)\<rparr>)"
  by (subst ee_Image.simps)
     (simp add: nth_arg_def as_Image_def goog_base_def Image_node_def new_ApiFunction_declared)

lemma ee_Image_Str_Num:
  "declares reg ''Image.load'' \<Longrightarrow>
   ee_Image reg [Str s, Num v] st =
     (Inr (Image_node (next_id st) ''Image.load'' [(''id'', Str s), (''version'', Num v)]),
      (initialize reg st)\<lparr>next_id := Suc (next_id st)\<rparr>)"
  by (subst ee_Image.simps)
     (simp add: nth_arg_def as_Image_def goog_base_def Image_node_def new_ApiFunction_declared)

lemma ee_Image_zero_args:
  "arguments = [] \<or> arguments = [Undefined] \<Longrightarrow>
   declares reg ''Image.mask'' \<Longrightarrow> declares reg ''Image.constant'' \<Longrightarrow>
   ee_Image reg arguments st =
     (Inr (empty_image (next_id st)), (initialize reg st)\<lparr>next_id := next_id st + 3\<rparr>)"
  apply (subst ee_Image.simps)
  apply (auto simp add: nth_arg_def as_Image_def ee_Image_Num goog_base_def Let_def
           empty_image_def Image_node_def new_ApiFunction_declared)
  done

lemma ee_Image_undefined_as_none:
  "ee_Image reg [Undefined] st = ee_Image reg [] st"
  by (subst ee_Image.simps, subst (2) ee_Image.simps)
     (simp add: nth_arg_def as_Image_def)

text \<open>
  Without the operation in the registry no node is built: the constructor throws after
  running the one-time initialization.
\<close>

lemma ee_Image_unknown_operation:
  "\<not> declares reg ''Image.constant'' \<Longrightarrow>
     ee_Image reg [Num n] st = (Inl (UnknownFunction ''Image.constant''), initialize reg st)"
  "\<not> declares reg ''Image.load'' \<Longrightarrow>
     ee_Image reg [Str s] st = (Inl (UnknownFunction ''Image.load''), initialize reg st)"
  "\<not> declares reg ''Image.mask'' \<Longrightarrow>
     ee_Image reg [] st = (Inl (UnknownFunction ''Image.mask''), initialize reg st)"
  by (subst ee_Image.simps, simp add: nth_arg_def as_Image_def new_ApiFunction_unknown)+

lemma declares_example_registry [simp]:
  "declares example_registry ''Image.constant''" "declares example_registry ''Image.load''"
  "declares example_registry ''Image.mask''"
  by (simp_all add: declares_def example_registry_def)

text \<open>
  C1. When the argument is already an image, the constructor returns that very object:
  the result has the identity and the fields of the argument, no object is created and
  the state stays as it was. (A computed object of another class is reinterpreted: the
  result is a new object, with the next identity, see \<open>ee_Image_reinterpret\<close>.)
\<close>

theorem Image_of_Image_is_identity:
  "klass x = ImageClass \<Longrightarrow> ee_Image reg [Computed x] st = (Inr x, st)"
proof -
  assume "klass x = ImageClass"
  then have "as_Image (nth_arg [Computed x] 0) = Some x"
    by (simp add: nth_arg_def as_Image_def)
  then show ?thesis
    by (subst ee_Image.simps) simp
qed

theorem Image_of_Image_is_identity_witness:
  "klass example_image = ImageClass \<and>
   ee_Image example_registry [Computed example_image] example_state = (Inr example_image, example_state)"
  using Image_of_Image_is_identity [of example_image example_registry example_state]
  by (simp add: example_image_def Image_node_def)

text \<open>
  C2. The constructor maps literal arguments to fixed call nodes, each for an operation
  that the registry declares: with \<open>Image.constant\<close> declared, a number \<open>n\<close> gives
  \<open>constant(value = n)\<close>; with \<open>Image.load\<close> declared, a string \<open>s\<close> gives \<open>load(id = s)\<close>
  and a string and a number give \<open>load(id = s, version = v)\<close>; with \<open>Image.mask\<close> and
  \<open>Image.constant\<close> declared, no argument gives
  \<open>mask(image = constant(0), mask = constant(0))\<close>. Each node is a new object, and the
  call runs the one-time initialization. (An operation that the registry lacks makes the
  constructor throw, see \<open>ee_Image_unknown_operation\<close>.)
\<close>

theorem Image_literal_dispatch:
  "(declares reg ''Image.constant'' \<longrightarrow>
      ee_Image reg [Num n] st =
        (Inr (Image_node (next_id st) ''Image.constant'' [(''value'', Num n)]),
         (initialize reg st)\<lparr>next_id := Suc (next_id st)\<rparr>))
   \<and> (declares reg ''Image.load'' \<longrightarrow>
      ee_Image reg [Str s] st =
        (Inr (Image_node (next_id st) ''Image.load'' [(''id'', Str s)]),
         (initialize reg st)\<lparr>next_id := Suc (next_id st)\<rparr>))
   \<and> (declares reg ''Image.load'' \<longrightarrow>
      ee_Image reg [Str s, Num v] st =
        (Inr (Image_node (next_id st) ''Image.load'' [(''id'', Str s), (''version'', Num v)]),
         (initialize reg st)\<lparr>next_id := Suc (next_id st)\<rparr>))
   \<and> (declares reg ''Image.mask'' \<and> declares reg ''Image.constant'' \<longrightarrow>
      ee_Image reg [] st =
        (Inr (Image_node (next_id st + 2) ''Image.mask''
                [(''image'', Computed (Image_node (next_id st) ''Image.constant'' [(''value'', Num 0)])),
                 (''mask'', Computed (Image_node (next_id st + 1) ''Image.constant'' [(''value'', Num 0)]))]),
         (initialize reg st)\<lparr>next_id := next_id st + 3\<rparr>))"
  using ee_Image_Num [of reg n st] ee_Image_Str [of reg s st] ee_Image_Str_Num [of reg s v st]
    ee_Image_zero_args [of "[]" reg st]
  by (simp add: empty_image_def)

theorem Image_literal_dispatch_witness:
  "declares example_registry ''Image.constant'' \<and> declares example_registry ''Image.load''
   \<and> declares example_registry ''Image.mask''
   \<and> fst (ee_Image example_registry [Num 5] example_state)
      = Inr (Image_node 0 ''Image.constant'' [(''value'', Num 5)])
   \<and> fst (ee_Image example_registry [Str ''abc''] example_state)
      = Inr (Image_node 0 ''Image.load'' [(''id'', Str ''abc'')])
   \<and> fst (ee_Image example_registry [Str ''abc'', Num 3] example_state)
      = Inr (Image_node 0 ''Image.load'' [(''id'', Str ''abc''), (''version'', Num 3)])
   \<and> fst (ee_Image example_registry [] example_state)
      = Inr (Image_node 2 ''Image.mask''
             [(''image'', Computed (Image_node 0 ''Image.constant'' [(''value'', Num 0)])),
              (''mask'', Computed (Image_node 1 ''Image.constant'' [(''value'', Num 0)]))])"
  using Image_literal_dispatch [of example_registry 5 example_state "''abc''" 3]
  by (simp add: example_state_def numeral_2_eq_2)

text \<open>
  C10. The constructor called with the one argument \<open>undefined\<close> does what the
  constructor without arguments does, on every registry and in every state; with the
  operations \<open>Image.mask\<close> and \<open>Image.constant\<close> declared by the registry it does not fail
  and gives the transparent image \<open>mask(image = constant(0), mask = constant(0))\<close>.
\<close>

theorem Image_of_undefined_is_empty_image:
  "ee_Image reg [Undefined] st = ee_Image reg [] st
   \<and> (declares reg ''Image.mask'' \<and> declares reg ''Image.constant'' \<longrightarrow>
      ee_Image reg [Undefined] st =
        (Inr (Image_node (next_id st + 2) ''Image.mask''
                [(''image'', Computed (Image_node (next_id st) ''Image.constant'' [(''value'', Num 0)])),
                 (''mask'', Computed (Image_node (next_id st + 1) ''Image.constant'' [(''value'', Num 0)]))]),
         (initialize reg st)\<lparr>next_id := next_id st + 3\<rparr>))"
  using ee_Image_undefined_as_none [of reg st] ee_Image_zero_args [of "[Undefined]" reg st]
  by (simp add: empty_image_def)

theorem Image_of_undefined_is_empty_image_witness:
  "declares example_registry ''Image.mask'' \<and> declares example_registry ''Image.constant''
   \<and> fst (ee_Image example_registry [Undefined] example_state)
      = Inr (Image_node 2 ''Image.mask''
             [(''image'', Computed (Image_node 0 ''Image.constant'' [(''value'', Num 0)])),
              (''mask'', Computed (Image_node 1 ''Image.constant'' [(''value'', Num 0)]))])"
  using Image_of_undefined_is_empty_image [THEN conjunct2, of example_registry example_state]
  by (simp add: example_state_def numeral_2_eq_2)

subsection \<open>Combine on no image\<close>

text \<open>
  C8. Whatever the list of new names is (absent or not), combining an empty sequence
  of images fails with the error of \<open>combine_\<close> ("Can't combine 0 images."), at once: no
  node is created and the state is unchanged.
\<close>

theorem combine_empty_fails:
  "combine reg [] opt_names st = (Inl CombineZeroImages, st)"
  by (subst combine.simps) simp

theorem combine_empty_fails_witness:
  "combine example_registry [] Undefined example_state = (Inl CombineZeroImages, example_state)
   \<and> combine example_registry [] (Arr [Str ''a'']) example_state
       = (Inl CombineZeroImages, example_state)"
  using combine_empty_fails [of example_registry Undefined example_state]
    combine_empty_fails [of example_registry "Arr [Str ''a'']" example_state]
  by simp

subsection \<open>Initialization and reset\<close>

text \<open>
  C9. A second initialization without a reset in between changes nothing, whatever the
  registry has become: the flag stays set and the installed members stay. A reset clears
  the flag and removes the installed members, and the initialization that follows
  installs the members of the registry of that moment.
\<close>

theorem initialize_once_reset_again:
  "initialize reg' (initialize reg st) = initialize reg st
   \<and> initialized (initialize reg st)
   \<and> initialized (reset st) = False \<and> members (reset st) = []
   \<and> initialize reg' (reset st) =
       st\<lparr>members := importApi reg' ''Window'' ''focal_'' (importApi reg' ''Image'' [] []),
          initialized := True\<rparr>"
  by (simp add: initialize_def reset_def clearApi_def)

theorem initialize_once_reset_again_witness:
  "initialize [] (initialize example_registry example_state) = initialize example_registry example_state
   \<and> members (initialize [] example_state) = []
   \<and> map_of (members (initialize example_registry (reset (initialize [] example_state)))) ''addBands''
       = Some ''Image.addBands''
   \<and> map_of (members (initialize example_registry (reset (initialize [] example_state)))) ''focal_max''
       = Some ''Window.max''"
  using initialize_once_reset_again [of "[]" example_registry example_state]
    initialize_once_reset_again [of example_registry "[]" "initialize [] example_state"]
  by (simp add: example_registry_def example_state_def importApi_def op_namespace_def op_member_def
        initialize_def)

subsection \<open>The call builder\<close>

lemma promote_unchanged:
  "ty \<noteq> ''Image'' \<or> as_Image v \<noteq> None \<Longrightarrow> promote reg v ty st = (Inr v, st)"
  by (subst promote.simps, subst ee_Image.simps)
     (auto simp: nth_arg_def as_Image_def split: jsvalue.splits if_splits)

lemma promoteArgs_unchanged:
  "list_all (promotes_to_itself named) specs \<Longrightarrow>
   promoteArgs reg sig specs named promoted st = (Inr (bind_args specs named promoted), st)"
proof (induction specs arbitrary: promoted)
  case Nil
  show ?case by (subst promoteArgs.simps) (simp add: bind_args_def)
next
  case (Cons spec specs)
  from Cons.prems have rest: "list_all (promotes_to_itself named) specs"
    and here: "promotes_to_itself named spec" by simp_all
  show ?case
  proof (cases "map_of named (arg_name spec)")
    case None
    with here have "arg_optional spec" by (simp add: promotes_to_itself_def)
    with None Cons.IH [OF rest, of promoted] show ?thesis
      by (subst promoteArgs.simps) (simp add: bind_args_def)
  next
    case (Some v)
    with here have "arg_type spec \<noteq> ''Image'' \<or> as_Image v \<noteq> None"
      by (simp add: promotes_to_itself_def)
    then have "promote reg v (arg_type spec) st = (Inr v, st)" by (rule promote_unchanged)
    with Some Cons.IH [OF rest, of "AList.update (arg_name spec) v promoted"] show ?thesis
      by (subst promoteArgs.simps) (simp add: bind_args_def)
  qed
qed

lemma ee_Image_reinterpret:
  "klass obj \<noteq> ImageClass \<Longrightarrow> name obj \<noteq> ''Array'' \<Longrightarrow>
   ee_Image reg [Computed obj] st =
     (Inr (ComputedObject (next_id st) ImageClass (func obj) (args obj) (varName obj)),
      (initialize reg st)\<lparr>next_id := Suc (next_id st)\<rparr>)"
  by (subst ee_Image.simps) (simp add: nth_arg_def as_Image_def goog_base_def)

lemma Function_apply_unchanged:
  assumes "getSignature reg f = Inr sig"
    and "list_all (promotes_to_itself named) (sig_args sig)"
    and "list_all (\<lambda>k. k \<in> set (map arg_name (sig_args sig))) (map fst named)"
    and "sig_returns sig = ''Image''"
  shows "Function_apply reg f named st =
     (Inr (ComputedObject (Suc (next_id st)) ImageClass (Some f)
             (Some (bind_args (sig_args sig) named [])) None),
      (initialize reg st)\<lparr>next_id := Suc (Suc (next_id st))\<rparr>)"
proof -
  have nounknown: "filter (\<lambda>k. k \<notin> set (map arg_name (sig_args sig))) (map fst named) = []"
    using assms(3) by (simp add: filter_empty_conv list_all_iff)
  show ?thesis
    apply (subst Function_apply.simps)
    apply (simp only: assms(1) sum.case promoteArgs_unchanged [OF assms(2)] prod.case Let_def nounknown)
    apply (simp add: new_ComputedObject_def assms(4) ee_Image_reinterpret)
    done
qed

lemma getSignature_ApiFunction [simp]:
  "map_of reg nm = Some sig \<Longrightarrow> getSignature reg (ApiFunction nm) = Inr sig"
  by (simp add: getSignature_def)

lemma ApiFunction_call_two:
  assumes "map_of reg nm = Some sig" and "sig_args sig = [p1, p2]"
    and "arg_name p1 \<noteq> arg_name p2" and "sig_returns sig = ''Image''"
    and "arg_type p1 \<noteq> ''Image'' \<or> as_Image a \<noteq> None"
    and "arg_type p2 \<noteq> ''Image'' \<or> as_Image b \<noteq> None"
  shows "ApiFunction_call reg nm [a, b] st =
     (Inr (Image_node (Suc (next_id st)) nm [(arg_name p1, a), (arg_name p2, b)]),
      (initialize reg st)\<lparr>next_id := Suc (Suc (next_id st))\<rparr>)"
proof -
  have named: "nameArgs (sig_args sig) [a, b] = [(arg_name p1, a), (arg_name p2, b)]"
    using assms(2,3) by (simp add: nameArgs_def)
  have "Function_apply reg (ApiFunction nm) [(arg_name p1, a), (arg_name p2, b)] st =
     (Inr (ComputedObject (Suc (next_id st)) ImageClass (Some (ApiFunction nm))
             (Some (bind_args (sig_args sig) [(arg_name p1, a), (arg_name p2, b)] [])) None),
      (initialize reg st)\<lparr>next_id := Suc (Suc (next_id st))\<rparr>)"
    using assms by (intro Function_apply_unchanged) (auto simp: promotes_to_itself_def)
  moreover have "bind_args (sig_args sig) [(arg_name p1, a), (arg_name p2, b)] []
      = [(arg_name p1, a), (arg_name p2, b)]"
    using assms(2,3) by (auto simp: bind_args_def)
  ultimately show ?thesis
    using assms(1,2) named
    by (subst ApiFunction_call.simps) (simp add: Image_node_def)
qed

lemma update_fresh: "k \<notin> fst ` set al \<Longrightarrow> AList.update k v al = al @ [(k, v)]"
  by (induction al) auto

lemma map_of_append_fresh:
  "k \<notin> fst ` set al1 \<Longrightarrow> map_of (al1 @ (k, v) # al2) k = Some v"
  by (induction al1) auto

lemma bind_args_Nil [simp]: "bind_args [] named promoted = promoted"
  by (simp add: bind_args_def)

lemma bind_args_Cons [simp]:
  "bind_args (spec # specs) named promoted =
     bind_args specs named
       (case map_of named (arg_name spec) of
          Some v \<Rightarrow> AList.update (arg_name spec) v promoted
        | None \<Rightarrow> promoted)"
  by (simp add: bind_args_def)

lemma update_present: "map_of al k = Some v \<Longrightarrow> AList.update k v al = al"
  by (induction al) auto

lemma bind_args_prefix:
  assumes "distinct (map fst (acc @ rest))"
    and "filter (\<lambda>n. n \<notin> fst ` set acc) ns = map fst rest"
  shows "bind_args (map (\<lambda>n. \<lparr>arg_name = n, arg_type = ty, arg_optional = opt\<rparr>) ns)
           (acc @ rest) acc = acc @ rest"
  using assms
proof (induction ns arbitrary: acc rest)
  case Nil
  then show ?case by simp
next
  case (Cons n ns)
  show ?case
  proof (cases "n \<in> fst ` set acc")
    case True
    then obtain v where v: "map_of acc n = Some v"
      by (metis domD dom_map_of_conv_image_fst)
    then have look: "map_of (acc @ rest) n = Some v" by simp
    have "bind_args (map (\<lambda>n. \<lparr>arg_name = n, arg_type = ty, arg_optional = opt\<rparr>) ns)
            (acc @ rest) acc = acc @ rest"
      using Cons.prems True by (intro Cons.IH) auto
    then show ?thesis
      by (simp only: list.map bind_args_Cons argspec.simps look option.case update_present [OF v])
  next
    case False
    with Cons.prems(2) obtain v rest' where rest: "rest = (n, v) # rest'"
      and more: "filter (\<lambda>n. n \<notin> fst ` set acc) ns = map fst rest'"
      by (cases rest) auto
    have look: "map_of (acc @ (n, v) # rest') n = Some v"
      using False by (rule map_of_append_fresh)
    have notin: "n \<notin> fst ` set rest'" using Cons.prems(1) rest by auto
    have "filter (\<lambda>k. k \<notin> fst ` set (acc @ [(n, v)])) ns
            = filter (\<lambda>k. k \<noteq> n) (filter (\<lambda>n. n \<notin> fst ` set acc) ns)"
      by (auto intro: filter_cong)
    also have "\<dots> = map fst rest'"
      unfolding more using notin by (auto simp: filter_id_conv)
    finally have flt: "filter (\<lambda>k. k \<notin> fst ` set (acc @ [(n, v)])) ns = map fst rest'" .
    have "bind_args (map (\<lambda>n. \<lparr>arg_name = n, arg_type = ty, arg_optional = opt\<rparr>) ns)
            ((acc @ [(n, v)]) @ rest') (acc @ [(n, v)]) = (acc @ [(n, v)]) @ rest'"
      using Cons.prems(1) rest flt by (intro Cons.IH) auto
    then show ?thesis
      unfolding rest
      by (simp only: list.map bind_args_Cons argspec.simps look option.case
            update_fresh [OF False] append_assoc append_Cons append_Nil)
  qed
qed


lemma ApiFunction_call_unchanged:
  assumes "map_of reg nm = Some sig" and "length positional \<le> length (sig_args sig)"
    and "list_all (promotes_to_itself (nameArgs (sig_args sig) positional)) (sig_args sig)"
    and "list_all (\<lambda>k. k \<in> set (map arg_name (sig_args sig)))
           (map fst (nameArgs (sig_args sig) positional))"
    and "sig_returns sig = ''Image''"
  shows "ApiFunction_call reg nm positional st =
     (Inr (Image_node (Suc (next_id st)) nm
             (bind_args (sig_args sig) (nameArgs (sig_args sig) positional) [])),
      (initialize reg st)\<lparr>next_id := Suc (Suc (next_id st))\<rparr>)"
  using assms(1,2)
  by (subst ApiFunction_call.simps)
     (simp add: Function_apply_unchanged [OF _ assms(3,4,5)] Image_node_def)

subsection \<open>Select\<close>

lemma find_None_valid:
  "\<forall>v\<in>set arguments. isString v \<or> isNumber v \<or> is_ComputedObject v \<Longrightarrow>
   find (\<lambda>v. \<not> isString v \<and> \<not> isNumber v \<and> \<not> is_ComputedObject v) arguments = None"
  by (auto simp: find_None_iff)

lemma select_variadic:
  assumes "arguments \<noteq> []" "isString (hd arguments) \<or> isNumber (hd arguments)"
    and "\<forall>v\<in>set arguments. isString v \<or> isNumber v \<or> is_ComputedObject v"
  shows "select reg this arguments st =
     ApiFunction_apply reg ''Image.select''
       [(''input'', Computed this), (''bandSelectors'', Arr arguments)] st"
proof -
  obtain a rest where a: "arguments = a # rest" using assms(1) by (cases arguments) auto
  have ndef: "a \<noteq> Undefined" using assms(2) a by auto
  have "find (\<lambda>v. \<not> isString v \<and> \<not> isNumber v \<and> \<not> is_ComputedObject v) (a # rest) = None"
    using find_None_valid [OF assms(3)] a by simp
  moreover have "isString a \<or> isNumber a" using assms(2) a by simp
  ultimately show ?thesis
    using ndef unfolding a
    by (subst select.simps) (simp add: nth_arg_def Let_def del: find.simps)
qed

lemma select_list:
  "select reg this [Arr selectors] st =
     ApiFunction_apply reg ''Image.select''
       [(''input'', Computed this), (''bandSelectors'', Arr selectors)] st"
  by (subst select.simps) (simp add: nth_arg_def Let_def)

text \<open>
  C5. When the first argument of \<open>select\<close> is a string or a number, all the positional
  arguments together are the selector list: for arguments that are strings, numbers (or
  computed objects), \<open>select(s1, ..., sn)\<close> is \<open>select([s1, ..., sn])\<close>, the call of
  \<open>Image.select\<close> with \<open>input\<close> the receiver and \<open>bandSelectors\<close> the list of the arguments.
\<close>

theorem select_variadic_is_select_list:
  assumes "arguments \<noteq> []" "isString (hd arguments) \<or> isNumber (hd arguments)"
    and "\<forall>v\<in>set arguments. isString v \<or> isNumber v \<or> is_ComputedObject v"
  shows "select reg this arguments st = select reg this [Arr arguments] st
    \<and> select reg this arguments st =
        ApiFunction_apply reg ''Image.select''
          [(''input'', Computed this), (''bandSelectors'', Arr arguments)] st"
  using select_variadic [OF assms] select_list [of reg this arguments st] by simp

theorem select_variadic_is_select_list_witness:
  "select example_registry example_image [Str ''B1'', Str ''B2''] example_state
     = select example_registry example_image [Arr [Str ''B1'', Str ''B2'']] example_state
   \<and> select example_registry example_image [Num 0, Str ''B2'', Computed example_image] example_state
     = select example_registry example_image [Arr [Num 0, Str ''B2'', Computed example_image]]
         example_state"
  using select_variadic_is_select_list
      [of "[Str ''B1'', Str ''B2'']" example_registry example_image example_state]
    select_variadic_is_select_list
      [of "[Num 0, Str ''B2'', Computed example_image]" example_registry example_image example_state]
  by simp

lemma find_first_invalid:
  "\<forall>v\<in>set pre. \<not> P v \<Longrightarrow> P bad \<Longrightarrow> find P (pre @ bad # post) = Some bad"
  by (induction pre) auto

lemma select_variadic_invalid:
  assumes "isString (hd arguments) \<or> isNumber (hd arguments)"
    and "arguments = pre @ bad # post"
    and "\<forall>v\<in>set pre. isString v \<or> isNumber v \<or> is_ComputedObject v"
    and "\<not> isString bad" and "\<not> isNumber bad" and "\<not> is_ComputedObject bad"
  shows "select reg this arguments st = (Inl (IllegalSelectArgument bad), st)"
proof -
  have ne: "arguments \<noteq> []" using assms(2) by simp
  then obtain a rest where a: "arguments = a # rest" by (cases arguments) auto
  have first: "isString a \<or> isNumber a" using assms(1) a by simp
  then have ndef: "a \<noteq> Undefined" by auto
  have "find (\<lambda>v. \<not> isString v \<and> \<not> isNumber v \<and> \<not> is_ComputedObject v) arguments = Some bad"
    unfolding assms(2) using assms(3-6) by (intro find_first_invalid) auto
  then show ?thesis
    using first ndef unfolding a
    by (subst select.simps) (simp add: nth_arg_def Let_def del: find.simps)
qed

text \<open>
  C6. The specification has a selector list with an element that is neither a string, a
  number nor a computed object make \<open>select\<close> fail, as in \<open>select([1, badObject])\<close>. The
  code checks the elements only in the variadic form.

  As amended: when the first argument of \<open>select\<close> is a string or a number, the first
  positional argument that is neither a string, a number nor a computed object makes
  \<open>select\<close> fail at once with the error that names this argument, and a list given as
  one argument is passed to the call of \<open>Image.select\<close> as it is.
\<close>

theorem select_validates_variadic_arguments_only:
  assumes "isString (hd arguments) \<or> isNumber (hd arguments)"
    and "arguments = pre @ bad # post"
    and "\<forall>v\<in>set pre. isString v \<or> isNumber v \<or> is_ComputedObject v"
    and "\<not> isString bad" and "\<not> isNumber bad" and "\<not> is_ComputedObject bad"
  shows "select reg this arguments st = (Inl (IllegalSelectArgument bad), st)
    \<and> select reg this [Arr arguments] st =
        ApiFunction_apply reg ''Image.select''
          [(''input'', Computed this), (''bandSelectors'', Arr arguments)] st"
  using select_variadic_invalid [OF assms] select_list [of reg this arguments st] by simp

theorem select_validates_variadic_arguments_only_witness:
  "select example_registry example_image [Num 1, Obj []] example_state
     = (Inl (IllegalSelectArgument (Obj [])), example_state)"
proof -
  have "isString (hd [Num 1, Obj []]) \<or> isNumber (hd [Num 1, Obj []])" by simp
  moreover have "[Num 1, Obj []] = [Num 1] @ Obj [] # []" by simp
  moreover have "\<forall>v\<in>set [Num 1]. isString v \<or> isNumber v \<or> is_ComputedObject v" by simp
  moreover have "\<not> isString (Obj [])" "\<not> isNumber (Obj [])" "\<not> is_ComputedObject (Obj [])"
    by simp_all
  ultimately show ?thesis
    by (rule select_validates_variadic_arguments_only [THEN conjunct1])
qed

text \<open>
  The list form at \<open>select([1, {}])\<close>: the call node is built and holds the list.
\<close>

lemma example_select_list:
  "as_Image this \<noteq> None \<Longrightarrow>
   ApiFunction_apply example_registry ''Image.select''
     [(''input'', this), (''bandSelectors'', selectors)] st =
     (Inr (Image_node (Suc (next_id st)) ''Image.select''
             [(''input'', this), (''bandSelectors'', selectors)]),
      (initialize example_registry st)\<lparr>next_id := Suc (Suc (next_id st))\<rparr>)"
  apply (subst ApiFunction_apply.simps)
  apply (subst Function_apply_unchanged [where sig = "the (map_of example_registry ''Image.select'')"])
  apply (simp_all add: example_registry_def promotes_to_itself_def bind_args_def Image_node_def)
  done

theorem select_list_not_validated_counterexample:
  "fst (select example_registry example_image [Arr [Num 1, Obj []]] example_state)
     = Inr (Image_node 1 ''Image.select''
              [(''input'', Computed example_image), (''bandSelectors'', Arr [Num 1, Obj []])])
   \<and> fst (select example_registry example_image [Arr [Num 1, Obj []]] example_state)
     \<noteq> Inl (IllegalSelectArgument (Obj []))"
  by (simp add: select_list example_select_list example_image_def example_state_def)

subsection \<open>Lists of images\<close>

lemma Function_apply_klass:
  assumes "getSignature reg f = Inr sig" and "sig_returns sig = ''Image''"
    and "Function_apply reg f named st = (Inr r, s)"
  shows "klass r = ImageClass"
proof -
  have eq: "\<And>p s0. ee_Image reg [Computed (fst (new_ComputedObject f p s0))] (snd (new_ComputedObject f p s0))
      = (Inr r, s) \<Longrightarrow> klass r = ImageClass"
    by (auto simp: new_ComputedObject_def ee_Image_reinterpret)
  show ?thesis
    using assms(3)
    apply (subst (asm) Function_apply.simps)
    apply (simp add: assms(1,2) Let_def split: prod.splits sum.splits if_splits)
    using eq apply (metis fst_conv snd_conv)
    done
qed

lemma ee_Image_Computed_klass:
  "ee_Image reg (Computed x # rest) st = (Inr r, s) \<Longrightarrow> rest = [] \<Longrightarrow> klass r = ImageClass"
  by (subst (asm) ee_Image.simps)
     (auto simp: nth_arg_def as_Image_def goog_base_def Let_def split: if_splits sum.splits)

lemma addBands_call_klass:
  assumes "addBands_returns_Image reg"
    and "ApiFunction_call reg ''Image.addBands'' positional st = (Inr r, s)"
  shows "klass r = ImageClass"
  using assms(2)
  apply (subst (asm) ApiFunction_call.simps)
  apply (cases "map_of reg ''Image.addBands''")
   apply (simp add: getSignature_def)
  using assms(1)
  apply (auto simp: addBands_returns_Image_def split: if_splits dest: Function_apply_klass [rotated 2])
  done

lemma combine_loop_is_fold:
  "combine_loop reg images i result st = addBands_fold reg result (drop i images) st"
proof (induction "length images - i" arbitrary: i result st)
  case 0
  then show ?case by (subst combine_loop.simps) simp
next
  case (Suc n)
  then have lt: "i < length images" by simp
  have step: "\<And>r s. combine_loop reg images (Suc i) r s = addBands_fold reg r (drop (Suc i) images) s"
    using Suc.hyps(2) by (intro Suc.hyps(1)) simp
  show ?case
    using lt
    by (subst combine_loop.simps)
       (simp add: step Cons_nth_drop_Suc [symmetric] split: prod.splits sum.splits)
qed

lemma addBands_fold_klass:
  "addBands_returns_Image reg \<Longrightarrow> klass result = ImageClass \<Longrightarrow>
   addBands_fold reg result imgs st = (Inr r, s) \<Longrightarrow> klass r = ImageClass"
proof (induction imgs arbitrary: result st)
  case Nil
  then show ?case by simp
next
  case (Cons img imgs)
  then show ?case
    by (auto split: prod.splits sum.splits dest: addBands_call_klass)
qed

lemma combine_no_names:
  "\<not> truthy opt_names \<Longrightarrow>
   combine reg (img # imgs) opt_names st =
     (case ee_Image reg [img] st of
        (Inl e, s) \<Rightarrow> (Inl e, s)
      | (Inr result, s) \<Rightarrow> addBands_fold reg result imgs s)"
  by (subst combine.simps)
     (auto simp: combine_loop_is_fold split: prod.splits sum.splits)

lemma combine_Computed_klass:
  assumes "addBands_returns_Image reg"
    and "combine reg (map Computed imgs) Undefined st = (Inr r, s)"
  shows "klass r = ImageClass"
proof (cases imgs)
  case Nil
  with assms(2) show ?thesis by (subst (asm) combine.simps) simp
next
  case (Cons x xs)
  with assms(2) obtain result s1 where
    first: "ee_Image reg [Computed x] st = (Inr result, s1)"
    and fold: "addBands_fold reg result (map Computed xs) s1 = (Inr r, s)"
    by (auto simp: combine_no_names split: prod.splits sum.splits)
  from first have "klass result = ImageClass" by (rule ee_Image_Computed_klass) simp
  from addBands_fold_klass [OF assms(1) this fold] show ?thesis .
qed

lemma ee_Image_klass:
  assumes "addBands_returns_Image reg" and "ee_Image reg arguments st = (Inr r, s)"
  shows "klass r = ImageClass"
  using assms(2)
  apply (subst (asm) ee_Image.simps)
  apply (auto simp: Let_def goog_base_def as_Image_def
      split: option.splits if_splits jsvalue.splits prod.splits sum.splits
      dest: combine_Computed_klass [OF assms(1)])
  done

lemma map_Image_klass:
  "addBands_returns_Image reg \<Longrightarrow> map_Image reg elems st = (Inr imgs, s) \<Longrightarrow>
   length imgs = length elems \<and> (\<forall>img\<in>set imgs. klass img = ImageClass)"
proof (induction elems arbitrary: imgs st)
  case Nil
  then show ?case by (subst (asm) map_Image.simps) auto
next
  case (Cons elem elems)
  from Cons.prems(2) obtain img s1 rest where
    one: "ee_Image reg [elem] st = (Inr img, s1)"
    and more: "map_Image reg elems s1 = (Inr rest, s)" and imgs: "imgs = img # rest"
    by (subst (asm) map_Image.simps) (auto split: prod.splits sum.splits)
  from Cons.prems(1) one have "klass img = ImageClass" by (rule ee_Image_klass)
  with Cons.IH [OF Cons.prems(1) more] imgs show ?case by simp
qed

lemma ee_Image_Arr:
  "ee_Image reg [Arr elems] st =
     (case map_Image reg elems (initialize reg st) of
        (Inl e, s) \<Rightarrow> (Inl e, s)
      | (Inr images, s) \<Rightarrow> combine reg (map Computed images) Undefined s)"
  by (subst ee_Image.simps) (simp add: nth_arg_def as_Image_def Let_def)

lemma combine_Images:
  assumes "imgs \<noteq> []" and "klass (hd imgs) = ImageClass"
  shows "combine reg (map Computed imgs) Undefined st
           = addBands_fold reg (hd imgs) (map Computed (tl imgs)) st"
proof -
  obtain x xs where imgs: "imgs = x # xs" using assms(1) by (cases imgs) auto
  with assms(2) show ?thesis by (simp add: combine_no_names ee_Image_instance)
qed

lemma map_Image_Nil [simp]: "map_Image reg [] st = (Inr [], st)"
  by (subst map_Image.simps) simp

lemma map_Image_Cons:
  "map_Image reg (elem # rest) st =
     (case ee_Image reg [elem] st of
        (Inl e, s) \<Rightarrow> (Inl e, s)
      | (Inr img, s) \<Rightarrow>
         (case map_Image reg rest s of
            (Inl e, s') \<Rightarrow> (Inl e, s')
          | (Inr imgs, s') \<Rightarrow> (Inr (img # imgs), s')))"
  by (subst map_Image.simps) simp

lemma example_addBands:
  "as_Image a \<noteq> None \<Longrightarrow> as_Image b \<noteq> None \<Longrightarrow>
   ApiFunction_call example_registry ''Image.addBands'' [a, b] st =
     (Inr (Image_node (Suc (next_id st)) ''Image.addBands'' [(''dstImg'', a), (''srcImg'', b)]),
      (initialize example_registry st)\<lparr>next_id := Suc (Suc (next_id st))\<rparr>)"
  using ApiFunction_call_two [of example_registry "''Image.addBands''" _
      "\<lparr>arg_name = ''dstImg'', arg_type = ''Image'', arg_optional = False\<rparr>"
      "\<lparr>arg_name = ''srcImg'', arg_type = ''Image'', arg_optional = False\<rparr>" a b st]
  by (simp add: example_registry_def)

lemma example_addBands_returns_Image: "addBands_returns_Image example_registry"
  by (simp add: addBands_returns_Image_def example_registry_def)

text \<open>
  When the registry declares \<open>Image.addBands\<close> with two parameters and the return type
  \<open>Image\<close>, the fold over images succeeds and builds the left-nested graph.
\<close>

lemma addBands_fold_graph:
  assumes "map_of reg ''Image.addBands'' = Some sig" and "sig_args sig = [p1, p2]"
    and "arg_name p1 \<noteq> arg_name p2" and "sig_returns sig = ''Image''"
  shows "klass result = ImageClass \<Longrightarrow> \<forall>img\<in>set imgs. klass img = ImageClass \<Longrightarrow>
     addBands_fold reg result (map Computed imgs) st =
       (Inr (addBands_graph (arg_name p1) (arg_name p2) (next_id st) result imgs),
        if imgs = [] then st else (initialize reg st)\<lparr>next_id := next_id st + 2 * length imgs\<rparr>)"
proof (induction imgs arbitrary: result st)
  case Nil
  then show ?case by simp
next
  case (Cons img imgs)
  have call: "ApiFunction_call reg ''Image.addBands'' [Computed result, Computed img] st =
     (Inr (Image_node (Suc (next_id st)) ''Image.addBands''
             [(arg_name p1, Computed result), (arg_name p2, Computed img)]),
      (initialize reg st)\<lparr>next_id := Suc (Suc (next_id st))\<rparr>)"
    using assms Cons.prems by (intro ApiFunction_call_two) (auto simp: as_Image_def)
  have rest: "\<forall>i\<in>set imgs. klass i = ImageClass" using Cons.prems(2) by simp
  show ?case
    by (simp add: call Cons.IH [OF klass_Image_node rest])
qed

lemma Image_each_failed:
  "foldl (\<lambda>acc elem.
              case acc of
                (Inl e, s) \<Rightarrow> (Inl e, s)
              | (Inr images, s) \<Rightarrow>
                 (case ee_Image reg [elem] s of
                    (Inl e, s') \<Rightarrow> (Inl e, s')
                  | (Inr img, s') \<Rightarrow> (Inr (images @ [img]), s')))
       (Inl e, s) elems = (Inl e, s)"
  by (induction elems) auto

lemma Image_each_from:
  "foldl (\<lambda>acc elem.
              case acc of
                (Inl e, s) \<Rightarrow> (Inl e, s)
              | (Inr images, s) \<Rightarrow>
                 (case ee_Image reg [elem] s of
                    (Inl e, s') \<Rightarrow> (Inl e, s')
                  | (Inr img, s') \<Rightarrow> (Inr (images @ [img]), s')))
       (Inr built, st) elems =
     (case map_Image reg elems st of
        (Inl e, s) \<Rightarrow> (Inl e, s)
      | (Inr images, s) \<Rightarrow> (Inr (built @ images), s))"
proof (induction elems arbitrary: built st)
  case Nil
  then show ?case by simp
next
  case (Cons elem elems)
  show ?case
    by (simp add: map_Image_Cons Cons.IH Image_each_failed split: prod.splits sum.splits)
qed

lemma map_Image_is_Image_each: "map_Image reg elems st = Image_each reg elems st"
  unfolding Image_each_def Image_each_from by (simp split: prod.splits sum.splits)

lemma map_Image_threads:
  "map_Image reg elems st = (Inr images, s) \<Longrightarrow>
   \<exists>sts. length sts = Suc (length elems) \<and> sts ! 0 = st \<and> sts ! length elems = s
     \<and> length images = length elems
     \<and> (\<forall>i<length elems. ee_Image reg [elems ! i] (sts ! i) = (Inr (images ! i), sts ! Suc i))"
proof (induction elems arbitrary: st images)
  case Nil
  then show ?case by (auto intro: exI [of _ "[st]"])
next
  case (Cons elem elems)
  from Cons.prems obtain img s1 rest where
    one: "ee_Image reg [elem] st = (Inr img, s1)"
    and more: "map_Image reg elems s1 = (Inr rest, s)" and imgs: "images = img # rest"
    by (auto simp: map_Image_Cons split: prod.splits sum.splits)
  from Cons.IH [OF more] obtain sts where
    sts: "length sts = Suc (length elems)" "sts ! 0 = s1" "sts ! length elems = s"
      "length rest = length elems"
      "\<forall>i<length elems. ee_Image reg [elems ! i] (sts ! i) = (Inr (rest ! i), sts ! Suc i)"
    by blast
  have "\<forall>i<length (elem # elems).
          ee_Image reg [(elem # elems) ! i] ((st # sts) ! i) = (Inr (images ! i), (st # sts) ! Suc i)"
  proof (intro allI impI)
    fix i assume "i < length (elem # elems)"
    then show "ee_Image reg [(elem # elems) ! i] ((st # sts) ! i) = (Inr (images ! i), (st # sts) ! Suc i)"
      using one sts(2,5) imgs by (cases i) auto
  qed
  with sts(1,3,4) imgs show ?case
    by (intro exI [of _ "st # sts"]) simp
qed

text \<open>
  C3. For a non-empty list, \<open>Image([a1, ..., an])\<close> is \<open>combine_\<close>, without new names, on the
  images \<open>Image(a1), ..., Image(an)\<close> in this order, each built in the state that its
  predecessor left (the third part says so index by index); and this is the left fold
  that starts with \<open>Image(a1)\<close> and calls \<open>Image.addBands(result, image)\<close> for the images of
  \<open>a2, ..., an\<close> in this order. When the images are built and the registry declares
  \<open>Image.addBands\<close> with two parameters, the result is the left-nested graph
  \<open>addBands(... addBands(addBands(Image(a1), Image(a2)), Image(a3)) ..., Image(an))\<close>. The
  registry is assumed not to declare \<open>Image.addBands\<close> with a return type other than
  \<open>Image\<close>.
\<close>

theorem Image_of_list_is_left_fold:
  assumes "addBands_returns_Image reg" and "elems \<noteq> []"
  shows "ee_Image reg [Arr elems] st =
           (case Image_each reg elems (initialize reg st) of
              (Inl e, s) \<Rightarrow> (Inl e, s)
            | (Inr images, s) \<Rightarrow> combine reg (map Computed images) Undefined s)
       \<and> ee_Image reg [Arr elems] st =
           (case Image_each reg elems (initialize reg st) of
              (Inl e, s) \<Rightarrow> (Inl e, s)
            | (Inr images, s) \<Rightarrow> addBands_fold reg (hd images) (map Computed (tl images)) s)
       \<and> (Image_each reg elems (initialize reg st) = (Inr images, s) \<longrightarrow>
            (\<exists>sts. length sts = Suc (length elems) \<and> sts ! 0 = initialize reg st
               \<and> sts ! length elems = s \<and> length images = length elems
               \<and> (\<forall>i<length elems.
                     ee_Image reg [elems ! i] (sts ! i) = (Inr (images ! i), sts ! Suc i))))
       \<and> (Image_each reg elems (initialize reg st) = (Inr images, s)
            \<and> map_of reg ''Image.addBands'' = Some sig \<and> sig_args sig = [p1, p2]
            \<and> arg_name p1 \<noteq> arg_name p2 \<longrightarrow>
          ee_Image reg [Arr elems] st =
            (Inr (addBands_graph (arg_name p1) (arg_name p2) (next_id s) (hd images) (tl images)),
             if tl images = [] then s
             else (initialize reg s)\<lparr>next_id := next_id s + 2 * length (tl images)\<rparr>))"
proof -
  have fold: "combine reg (map Computed imgs) Undefined s'
          = addBands_fold reg (hd imgs) (map Computed (tl imgs)) s'
        \<and> klass (hd imgs) = ImageClass \<and> (\<forall>img\<in>set (tl imgs). klass img = ImageClass)"
    if "map_Image reg elems (initialize reg st) = (Inr imgs, s')" for imgs s'
  proof -
    from map_Image_klass [OF assms(1) that] assms(2)
    have ne: "imgs \<noteq> []" and all: "\<forall>img\<in>set imgs. klass img = ImageClass" by auto
    from ne all have hd: "klass (hd imgs) = ImageClass" by (cases imgs) auto
    from ne all have tl: "\<forall>img\<in>set (tl imgs). klass img = ImageClass" by (cases imgs) auto
    from combine_Images [OF ne hd] hd tl show ?thesis by simp
  qed
  have c1: "ee_Image reg [Arr elems] st =
           (case Image_each reg elems (initialize reg st) of
              (Inl e, s) \<Rightarrow> (Inl e, s)
            | (Inr images, s) \<Rightarrow> combine reg (map Computed images) Undefined s)"
    by (simp add: ee_Image_Arr map_Image_is_Image_each)
  have c2: "ee_Image reg [Arr elems] st =
           (case Image_each reg elems (initialize reg st) of
              (Inl e, s) \<Rightarrow> (Inl e, s)
            | (Inr images, s) \<Rightarrow> addBands_fold reg (hd images) (map Computed (tl images)) s)"
    unfolding c1 using fold
    by (auto simp: map_Image_is_Image_each split: prod.splits sum.splits)
  have c3: "\<exists>sts. length sts = Suc (length elems) \<and> sts ! 0 = initialize reg st
               \<and> sts ! length elems = s \<and> length images = length elems
               \<and> (\<forall>i<length elems.
                     ee_Image reg [elems ! i] (sts ! i) = (Inr (images ! i), sts ! Suc i))"
    if "Image_each reg elems (initialize reg st) = (Inr images, s)"
    using that unfolding map_Image_is_Image_each [symmetric] by (rule map_Image_threads)
  have c4: "ee_Image reg [Arr elems] st =
            (Inr (addBands_graph (arg_name p1) (arg_name p2) (next_id s) (hd images) (tl images)),
             if tl images = [] then s
             else (initialize reg s)\<lparr>next_id := next_id s + 2 * length (tl images)\<rparr>)"
    if each: "Image_each reg elems (initialize reg st) = (Inr images, s)"
      and sig: "map_of reg ''Image.addBands'' = Some sig" "sig_args sig = [p1, p2]"
        "arg_name p1 \<noteq> arg_name p2"
  proof -
    have ret: "sig_returns sig = ''Image''"
      using assms(1) sig(1) by (simp add: addBands_returns_Image_def)
    from each have "map_Image reg elems (initialize reg st) = (Inr images, s)"
      by (simp add: map_Image_is_Image_each)
    from fold [OF this] have hd: "klass (hd images) = ImageClass"
      and tl: "\<forall>img\<in>set (tl images). klass img = ImageClass" by simp_all
    from addBands_fold_graph [OF sig ret hd tl, of s] show ?thesis
      unfolding c2 each by simp
  qed
  from c1 c2 c3 c4 show ?thesis by blast
qed

theorem Image_of_list_is_left_fold_witness:
  "fst (ee_Image example_registry [Arr [Num 1, Str ''a'', Num 2]] example_state) =
     Inr (Image_node 6 ''Image.addBands''
            [(''dstImg'', Computed (Image_node 4 ''Image.addBands''
                 [(''dstImg'', Computed (Image_node 0 ''Image.constant'' [(''value'', Num 1)])),
                  (''srcImg'', Computed (Image_node 1 ''Image.load'' [(''id'', Str ''a'')]))])),
             (''srcImg'', Computed (Image_node 2 ''Image.constant'' [(''value'', Num 2)]))])"
  using Image_of_list_is_left_fold [THEN conjunct2, THEN conjunct1, OF example_addBands_returns_Image,
      of "[Num 1, Str ''a'', Num 2]" example_state]
  by (simp add: Image_each_def ee_Image_Num ee_Image_Str example_addBands example_state_def
        eval_nat_numeral)

subsection \<open>Clip\<close>

lemma clip_call:
  assumes "map_of reg ''Image.clip'' = Some sig" and "sig_args sig = [p1, p2]"
    and "arg_name p1 \<noteq> arg_name p2" and "arg_type p2 \<noteq> ''Image''"
    and "sig_returns sig = ''Image''" and "klass this = ImageClass"
  shows "ApiFunction_call reg ''Image.clip'' [Computed this, g] s =
     (Inr (Image_node (Suc (next_id s)) ''Image.clip''
             [(arg_name p1, Computed this), (arg_name p2, g)]),
      (initialize reg s)\<lparr>next_id := Suc (Suc (next_id s))\<rparr>)"
  using assms by (intro ApiFunction_call_two) (auto simp: as_Image_def)

text \<open>
  C7. \<open>clip(g)\<close> does not raise, whatever \<open>g\<close> is and whatever the constructor of
  geometries does: when the constructor throws, the node \<open>clip(input, geometry)\<close> holds
  \<open>g\<close> itself, and when it returns a geometry the node holds that geometry. The registry
  is assumed to declare \<open>Image.clip\<close> with two parameters, the second of a type other than
  \<open>Image\<close>, and the return type \<open>Image\<close>.
\<close>

theorem clip_never_raises:
  assumes "map_of reg ''Image.clip'' = Some sig" and "sig_args sig = [p1, p2]"
    and "arg_name p1 \<noteq> arg_name p2" and "arg_type p2 \<noteq> ''Image''"
    and "sig_returns sig = ''Image''" and "klass this = ImageClass"
  shows "clip Geometry reg this g st =
     (case Geometry g st of
        (Inl e, s) \<Rightarrow>
          (Inr (Image_node (Suc (next_id s)) ''Image.clip''
                  [(arg_name p1, Computed this), (arg_name p2, g)]),
           (initialize reg s)\<lparr>next_id := Suc (Suc (next_id s))\<rparr>)
      | (Inr geo, s) \<Rightarrow>
          (Inr (Image_node (Suc (next_id s)) ''Image.clip''
                  [(arg_name p1, Computed this), (arg_name p2, Computed geo)]),
           (initialize reg s)\<lparr>next_id := Suc (Suc (next_id s))\<rparr>))"
  by (simp add: clip_def clip_call [OF assms] split: prod.splits sum.splits)

theorem clip_never_raises_witness:
  "fst (clip example_Geometry example_registry example_image (Str ''nowhere'') example_state)
     = Inr (Image_node 1 ''Image.clip''
              [(''input'', Computed example_image), (''geometry'', Str ''nowhere'')])
   \<and> fst (clip example_Geometry example_registry example_image
             (Obj [(''type'', Str ''Point''), (''coordinates'', Arr [Num 1, Num 2])]) example_state)
     = Inr (Image_node 2 ''Image.clip''
              [(''input'', Computed example_image),
               (''geometry'', Computed (ComputedObject 0 (OtherClass ''Geometry'') None
                  (Some [(''type'', Str ''Point''), (''coordinates'', Arr [Num 1, Num 2])]) None))])"
  using clip_never_raises [of example_registry _
      "\<lparr>arg_name = ''input'', arg_type = ''Image'', arg_optional = False\<rparr>"
      "\<lparr>arg_name = ''geometry'', arg_type = ''Object'', arg_optional = True\<rparr>"
      example_image example_Geometry "Str ''nowhere''" example_state]
    clip_never_raises [of example_registry _
      "\<lparr>arg_name = ''input'', arg_type = ''Image'', arg_optional = False\<rparr>"
      "\<lparr>arg_name = ''geometry'', arg_type = ''Object'', arg_optional = True\<rparr>"
      example_image example_Geometry
      "Obj [(''type'', Str ''Point''), (''coordinates'', Arr [Num 1, Num 2])]" example_state]
  by (simp add: example_registry_def example_image_def example_Geometry_def example_state_def
        eval_nat_numeral)

subsection \<open>Expression\<close>

lemma promotes_all_Images:
  assumes "\<forall>v\<in>snd ` set al. as_Image v \<noteq> None" and "n \<in> fst ` set al"
  shows "promotes_to_itself al \<lparr>arg_name = n, arg_type = ty, arg_optional = opt\<rparr>"
proof -
  from assms(2) obtain v where "map_of al n = Some v"
    by (metis domD dom_map_of_conv_image_fst)
  moreover from this have "v \<in> snd ` set al" by (auto dest: map_of_SomeD intro: rev_image_eqI)
  ultimately show ?thesis using assms(1) by (auto simp: promotes_to_itself_def)
qed

lemma expression_loop_is_fold:
  "expression_loop reg m vars argmap st =
     (case map_Image reg (map snd m) st of
        (Inl e, s) \<Rightarrow> (Inl e, s)
      | (Inr imgs, s) \<Rightarrow>
          (Inr (vars @ map fst m,
                foldl (\<lambda>acc (n, v). AList.update n v acc) argmap
                  (zip (map fst m) (map Computed imgs))), s))"
proof (induction m arbitrary: vars argmap st)
  case Nil
  then show ?case by simp
next
  case (Cons kv m)
  obtain nm v where kv: "kv = (nm, v)" by (cases kv)
  show ?case
    by (simp add: kv map_Image_Cons Cons.IH split: prod.splits sum.splits)
qed

lemma foldl_update_reserved:
  assumes "distinct (map fst kvs)" and "D \<notin> fst ` set pre"
    and "fst ` set pre \<inter> fst ` set kvs = {}"
  shows "foldl (\<lambda>acc (n, v). AList.update n v acc) ((D, x) # pre) kvs =
     (D, case map_of kvs D of None \<Rightarrow> x | Some v \<Rightarrow> v) # pre @ filter (\<lambda>(n, v). n \<noteq> D) kvs"
  using assms
proof (induction kvs arbitrary: x pre)
  case Nil
  then show ?case by simp
next
  case (Cons kv kvs)
  obtain k v where kv: "kv = (k, v)" by (cases kv)
  show ?case
  proof (cases "k = D")
    case True
    have none: "map_of kvs D = None"
      using Cons.prems(1) kv True by (auto simp: map_of_eq_None_iff)
    have "foldl (\<lambda>acc (n, v). AList.update n v acc) ((D, v) # pre) kvs =
       (D, case map_of kvs D of None \<Rightarrow> v | Some v \<Rightarrow> v) # pre @ filter (\<lambda>(n, v). n \<noteq> D) kvs"
      using Cons.prems kv by (intro Cons.IH) auto
    then show ?thesis by (simp add: kv True none)
  next
    case False
    have fresh: "k \<notin> fst ` set pre" using Cons.prems(3) kv by auto
    have "foldl (\<lambda>acc (n, v). AList.update n v acc) ((D, x) # (pre @ [(k, v)])) kvs =
       (D, case map_of kvs D of None \<Rightarrow> x | Some v \<Rightarrow> v)
         # (pre @ [(k, v)]) @ filter (\<lambda>(n, v). n \<noteq> D) kvs"
      using Cons.prems kv False by (intro Cons.IH) auto
    then show ?thesis using False by (simp add: kv update_fresh [OF fresh])
  qed
qed

lemma map_fst_filter_key:
  "map fst (filter (\<lambda>(n, v). P n) kvs) = filter P (map fst kvs)"
  by (induction kvs) auto

lemma Function_apply_expression:
  assumes "distinct (map fst ((D, v0) # rest))"
    and "\<forall>v\<in>snd ` set ((D, v0) # rest). as_Image v \<noteq> None"
    and "filter (\<lambda>n. n \<noteq> D) names = map fst rest"
  shows "Function_apply reg (ExprFunction body (expression_signature (D # names)))
           ((D, v0) # rest) st =
     (Inr (ComputedObject (Suc (next_id st)) ImageClass
             (Some (ExprFunction body (expression_signature (D # names))))
             (Some ((D, v0) # rest)) None),
      (initialize reg st)\<lparr>next_id := Suc (Suc (next_id st))\<rparr>)"
proof -
  let ?sig = "expression_signature (D # names)"
  let ?al = "(D, v0) # rest"
  have sig: "getSignature reg (ExprFunction body ?sig) = Inr ?sig"
    by (simp add: getSignature_def)
  have keys: "fst ` set rest = {n \<in> set names. n \<noteq> D}"
    using arg_cong [OF assms(3), of set] by auto
  have all: "list_all (promotes_to_itself ?al) (sig_args ?sig)"
    unfolding expression_signature_def list_all_iff
    using keys by (auto intro!: promotes_all_Images [OF assms(2)])
  have known: "list_all (\<lambda>k. k \<in> set (map arg_name (sig_args ?sig))) (map fst ?al)"
    using keys by (auto simp: expression_signature_def list_all_iff image_iff)
  have ret: "sig_returns ?sig = ''Image''" by (simp add: expression_signature_def)
  have "bind_args (map (\<lambda>n. \<lparr>arg_name = n, arg_type = ''Image'', arg_optional = False\<rparr>) names)
          ([(D, v0)] @ rest) [(D, v0)] = [(D, v0)] @ rest"
    using assms(1,3) by (intro bind_args_prefix) auto
  then have "bind_args (sig_args ?sig) ?al [] = ?al"
    by (simp add: expression_signature_def)
  with Function_apply_unchanged [OF sig all known ret, of st] show ?thesis by simp
qed

lemma expression_general:
  assumes "klass this = ImageClass" and "addBands_returns_Image reg"
    and "m = (case opt_map of None \<Rightarrow> [] | Some props \<Rightarrow> props)"
    and "distinct (map fst m)"
  shows "expression reg this expr opt_map st =
     (case Image_each reg (map snd m) st of
        (Inl e, s) \<Rightarrow> (Inl e, s)
      | (Inr imgs, s1) \<Rightarrow>
         (case ApiFunction_call reg ''Image.parseExpression''
                 [Str expr, Str ''DEFAULT_EXPRESSION_IMAGE'',
                  Arr (map Str (''DEFAULT_EXPRESSION_IMAGE'' # map fst m))] s1 of
            (Inl e, s) \<Rightarrow> (Inl e, s)
          | (Inr body, s2) \<Rightarrow>
             (Inr (ComputedObject (Suc (next_id s2)) ImageClass
                     (Some (ExprFunction body
                        \<lparr>sig_name = [],
                         sig_args = map (\<lambda>n. \<lparr>arg_name = n, arg_type = ''Image'', arg_optional = False\<rparr>)
                                      (''DEFAULT_EXPRESSION_IMAGE'' # map fst m),
                         sig_returns = ''Image''\<rparr>))
                     (Some ((''DEFAULT_EXPRESSION_IMAGE'',
                             case map_of (zip (map fst m) imgs) ''DEFAULT_EXPRESSION_IMAGE'' of
                               None \<Rightarrow> Computed this
                             | Some img \<Rightarrow> Computed img)
                            # filter (\<lambda>(n, v). n \<noteq> ''DEFAULT_EXPRESSION_IMAGE'')
                                (zip (map fst m) (map Computed imgs))))
                     None),
              (initialize reg s2)\<lparr>next_id := Suc (Suc (next_id s2))\<rparr>)))"
proof (cases "map_Image reg (map snd m) st")
  case (Pair r s1)
  let ?D = "''DEFAULT_EXPRESSION_IMAGE''"
  show ?thesis
  proof (cases r)
    case (Inl e)
    with Pair show ?thesis
      by (simp add: expression_def assms(3) [symmetric] Let_def expression_loop_is_fold
            map_Image_is_Image_each [symmetric])
  next
    case (Inr imgs)
    with Pair have built: "map_Image reg (map snd m) st = (Inr imgs, s1)" by simp
    let ?kvs = "zip (map fst m) (map Computed imgs)"
    let ?v0 = "case map_of (zip (map fst m) imgs) ?D of None \<Rightarrow> Computed this | Some img \<Rightarrow> Computed img"
    let ?rest = "filter (\<lambda>(n, v). n \<noteq> ?D) ?kvs"
    from map_Image_klass [OF assms(2) built]
    have len: "length imgs = length m" and imgk: "\<forall>img\<in>set imgs. klass img = ImageClass"
      by simp_all
    have keys: "map fst ?kvs = map fst m" using len by simp
    have dk: "distinct (map fst ?kvs)" unfolding keys by (rule assms(4))
    have zipmap: "?kvs = map (\<lambda>(n, img). (n, Computed img)) (zip (map fst m) imgs)"
      by (simp add: zip_map2)
    have v0: "(case map_of ?kvs ?D of None \<Rightarrow> Computed this | Some v \<Rightarrow> v) = ?v0"
      unfolding zipmap by (simp add: map_of_map split: option.splits)
    have fold: "foldl (\<lambda>acc (n, v). AList.update n v acc) [(?D, Computed this)] ?kvs = (?D, ?v0) # ?rest"
      using foldl_update_reserved [OF dk, of ?D "[]" "Computed this"] v0 by simp
    have loop: "expression_loop reg m [?D] [(?D, Computed this)] st
                  = (Inr (?D # map fst m, (?D, ?v0) # ?rest), s1)"
      by (simp add: expression_loop_is_fold built fold)
    have restkeys: "map fst ?rest = filter (\<lambda>n. n \<noteq> ?D) (map fst m)"
      by (simp only: map_fst_filter_key keys)
    have dist: "distinct (map fst ((?D, ?v0) # ?rest))"
      unfolding list.map fst_conv restkeys using assms(4) by simp
    have v0img: "as_Image ?v0 \<noteq> None"
      using imgk assms(1) by (auto simp: as_Image_def split: option.splits dest!: map_of_SomeD set_zip_rightD)
    have vals: "\<forall>v\<in>snd ` set ((?D, ?v0) # ?rest). as_Image v \<noteq> None"
      using imgk v0img by (auto simp: as_Image_def dest!: set_zip_rightD)
    have applied: "Function_apply reg (ExprFunction body (expression_signature (?D # map fst m)))
           ((?D, ?v0) # ?rest) s2 =
       (Inr (ComputedObject (Suc (next_id s2)) ImageClass
             (Some (ExprFunction body (expression_signature (?D # map fst m))))
             (Some ((?D, ?v0) # ?rest)) None),
        (initialize reg s2)\<lparr>next_id := Suc (Suc (next_id s2))\<rparr>)" for body s2
      using dist vals restkeys [symmetric] by (rule Function_apply_expression)
    have e1: "expression reg this expr opt_map st =
       (case ApiFunction_call reg ''Image.parseExpression''
               [Str expr, Str ?D, Arr (map Str (?D # map fst m))] s1 of
          (Inl e, s) \<Rightarrow> (Inl e, s)
        | (Inr body, s2) \<Rightarrow>
            Function_apply reg (ExprFunction body (expression_signature (?D # map fst m)))
              ((?D, ?v0) # ?rest) s2)"
      by (simp add: expression_def assms(3) [symmetric] Let_def loop)
    show ?thesis
      apply (simp only: e1 map_Image_is_Image_each [symmetric] built applied)
      apply (simp only: expression_signature_def prod.case sum.case)
      done
  qed
qed

lemma example_parseExpression:
  "ApiFunction_call example_registry ''Image.parseExpression'' [Str e, Str d, Arr vars] st =
     (Inr (Image_node (Suc (next_id st)) ''Image.parseExpression''
             [(''expression'', Str e), (''argName'', Str d), (''vars'', Arr vars)]),
      (initialize example_registry st)\<lparr>next_id := Suc (Suc (next_id st))\<rparr>)"
  apply (subst ApiFunction_call_unchanged
      [where sig = "the (map_of example_registry ''Image.parseExpression'')"])
  apply (simp_all add: example_registry_def promotes_to_itself_def nameArgs_def)
  done

text \<open>
  C4. The specification has the reserved name \<open>DEFAULT_EXPRESSION_IMAGE\<close> bound to the
  receiver for every variable map. The code takes the names of the map as they are: a
  map with the reserved name as a key replaces the receiver.

  As amended: for every expression string \<open>e\<close> and every variable map \<open>m\<close> (an absent map
  is the empty map), \<open>expression(e, m)\<close> builds the images of the values of \<open>m\<close> in order,
  then the call \<open>parseExpression(e, D, [D] ++ names(m))\<close> for the reserved name \<open>D\<close>, and
  fails with the error of the first of these steps that fails; otherwise its result is
  the application of a function whose body is this call and whose signature has the
  \<open>1 + |m|\<close> parameters \<open>[D] ++ names(m)\<close>, each of type \<open>Image\<close> and not optional, and the
  return type \<open>Image\<close>, to an argument mapping that binds each name of \<open>m\<close> to the image of
  its value and binds \<open>D\<close> to the receiver when \<open>D\<close> is not a name of \<open>m\<close>: \<open>D\<close> is a fixed
  string and not distinct from every name a user can choose, and when it is a name of
  \<open>m\<close> it is bound to the image of the value of \<open>m\<close> under it, which replaces the receiver.
  The receiver is an \<open>ee.Image\<close>, the keys of an object are distinct, and the registry is
  assumed not to declare \<open>Image.addBands\<close> with a return type other than \<open>Image\<close>.
\<close>

theorem expression_builds_parseExpression_call:
  assumes "klass this = ImageClass" and "addBands_returns_Image reg" and "distinct (map fst m)"
  shows "expression reg this expr None st = expression reg this expr (Some []) st
   \<and> expression reg this expr (Some m) st =
     (case Image_each reg (map snd m) st of
        (Inl e, s) \<Rightarrow> (Inl e, s)
      | (Inr imgs, s1) \<Rightarrow>
         (case ApiFunction_call reg ''Image.parseExpression''
                 [Str expr, Str ''DEFAULT_EXPRESSION_IMAGE'',
                  Arr (map Str (''DEFAULT_EXPRESSION_IMAGE'' # map fst m))] s1 of
            (Inl e, s) \<Rightarrow> (Inl e, s)
          | (Inr body, s2) \<Rightarrow>
             (Inr (ComputedObject (Suc (next_id s2)) ImageClass
                     (Some (ExprFunction body
                        \<lparr>sig_name = [],
                         sig_args = map (\<lambda>n. \<lparr>arg_name = n, arg_type = ''Image'', arg_optional = False\<rparr>)
                                      (''DEFAULT_EXPRESSION_IMAGE'' # map fst m),
                         sig_returns = ''Image''\<rparr>))
                     (Some ((''DEFAULT_EXPRESSION_IMAGE'',
                             case map_of (zip (map fst m) imgs) ''DEFAULT_EXPRESSION_IMAGE'' of
                               None \<Rightarrow> Computed this
                             | Some img \<Rightarrow> Computed img)
                            # filter (\<lambda>(n, v). n \<noteq> ''DEFAULT_EXPRESSION_IMAGE'')
                                (zip (map fst m) (map Computed imgs))))
                     None),
              (initialize reg s2)\<lparr>next_id := Suc (Suc (next_id s2))\<rparr>)))"
proof -
  have "expression reg this expr None st = expression reg this expr (Some []) st"
    by (simp add: expression_def)
  moreover have "m = (case Some m of None \<Rightarrow> [] | Some props \<Rightarrow> props)" by simp
  note expression_general [OF assms(1,2) this assms(3), of expr st]
  ultimately show ?thesis by (rule conjI)
qed

theorem expression_builds_parseExpression_call_witness:
  "fst (expression example_registry example_image ''b1+b2''
          (Some [(''b2'', Computed other_image)]) example_state) =
     Inr (ComputedObject 3 ImageClass
            (Some (ExprFunction
               (Image_node 1 ''Image.parseExpression''
                  [(''expression'', Str ''b1+b2''), (''argName'', Str ''DEFAULT_EXPRESSION_IMAGE''),
                   (''vars'', Arr [Str ''DEFAULT_EXPRESSION_IMAGE'', Str ''b2''])])
               \<lparr>sig_name = [],
                sig_args = [\<lparr>arg_name = ''DEFAULT_EXPRESSION_IMAGE'', arg_type = ''Image'',
                               arg_optional = False\<rparr>,
                            \<lparr>arg_name = ''b2'', arg_type = ''Image'', arg_optional = False\<rparr>],
                sig_returns = ''Image''\<rparr>))
            (Some [(''DEFAULT_EXPRESSION_IMAGE'', Computed example_image),
                   (''b2'', Computed other_image)])
            None)
   \<and> fst (expression example_registry example_image ''b1''
          (Some [(''DEFAULT_EXPRESSION_IMAGE'', Computed other_image), (''b2'', Num 7)])
          example_state) =
     Inr (ComputedObject 4 ImageClass
            (Some (ExprFunction
               (Image_node 2 ''Image.parseExpression''
                  [(''expression'', Str ''b1''), (''argName'', Str ''DEFAULT_EXPRESSION_IMAGE''),
                   (''vars'', Arr [Str ''DEFAULT_EXPRESSION_IMAGE'', Str ''DEFAULT_EXPRESSION_IMAGE'',
                                   Str ''b2''])])
               \<lparr>sig_name = [],
                sig_args = [\<lparr>arg_name = ''DEFAULT_EXPRESSION_IMAGE'', arg_type = ''Image'',
                               arg_optional = False\<rparr>,
                            \<lparr>arg_name = ''DEFAULT_EXPRESSION_IMAGE'', arg_type = ''Image'',
                               arg_optional = False\<rparr>,
                            \<lparr>arg_name = ''b2'', arg_type = ''Image'', arg_optional = False\<rparr>],
                sig_returns = ''Image''\<rparr>))
            (Some [(''DEFAULT_EXPRESSION_IMAGE'', Computed other_image),
                   (''b2'', Computed (Image_node 0 ''Image.constant'' [(''value'', Num 7)]))])
            None)"
proof -
  let ?m = "[(''b2'', Computed other_image)]"
  let ?m2 = "[(''DEFAULT_EXPRESSION_IMAGE'', Computed other_image), (''b2'', Num 7)]"
  have a1: "klass example_image = ImageClass" by (simp add: example_image_def)
  have a3: "distinct (map fst ?m)" by simp
  have b3: "distinct (map fst ?m2)" by simp
  have other: "klass other_image = ImageClass" by (simp add: other_image_def)
  have each: "Image_each example_registry (map snd ?m) example_state
                = (Inr [other_image], example_state)"
    by (simp add: Image_each_def ee_Image_instance [OF other])
  have each2: "Image_each example_registry (map snd ?m2) example_state
                = (Inr [other_image, Image_node 0 ''Image.constant'' [(''value'', Num 7)]],
                   (initialize example_registry example_state)\<lparr>next_id := Suc 0\<rparr>)"
    by (simp add: Image_each_def ee_Image_instance [OF other] ee_Image_Num example_state_def)
  from expression_builds_parseExpression_call
         [THEN conjunct2, OF a1 example_addBands_returns_Image a3, of "''b1+b2''" example_state]
  have one: "fst (expression example_registry example_image ''b1+b2'' (Some ?m) example_state) =
     Inr (ComputedObject 3 ImageClass
            (Some (ExprFunction
               (Image_node 1 ''Image.parseExpression''
                  [(''expression'', Str ''b1+b2''), (''argName'', Str ''DEFAULT_EXPRESSION_IMAGE''),
                   (''vars'', Arr [Str ''DEFAULT_EXPRESSION_IMAGE'', Str ''b2''])])
               \<lparr>sig_name = [],
                sig_args = [\<lparr>arg_name = ''DEFAULT_EXPRESSION_IMAGE'', arg_type = ''Image'',
                               arg_optional = False\<rparr>,
                            \<lparr>arg_name = ''b2'', arg_type = ''Image'', arg_optional = False\<rparr>],
                sig_returns = ''Image''\<rparr>))
            (Some [(''DEFAULT_EXPRESSION_IMAGE'', Computed example_image),
                   (''b2'', Computed other_image)])
            None)"
    unfolding each
    by (simp add: example_parseExpression example_state_def eval_nat_numeral)
  from expression_builds_parseExpression_call
         [THEN conjunct2, OF a1 example_addBands_returns_Image b3, of "''b1''" example_state]
  have two: "fst (expression example_registry example_image ''b1'' (Some ?m2) example_state) =
     Inr (ComputedObject 4 ImageClass
            (Some (ExprFunction
               (Image_node 2 ''Image.parseExpression''
                  [(''expression'', Str ''b1''), (''argName'', Str ''DEFAULT_EXPRESSION_IMAGE''),
                   (''vars'', Arr [Str ''DEFAULT_EXPRESSION_IMAGE'', Str ''DEFAULT_EXPRESSION_IMAGE'',
                                   Str ''b2''])])
               \<lparr>sig_name = [],
                sig_args = [\<lparr>arg_name = ''DEFAULT_EXPRESSION_IMAGE'', arg_type = ''Image'',
                               arg_optional = False\<rparr>,
                            \<lparr>arg_name = ''DEFAULT_EXPRESSION_IMAGE'', arg_type = ''Image'',
                               arg_optional = False\<rparr>,
                            \<lparr>arg_name = ''b2'', arg_type = ''Image'', arg_optional = False\<rparr>],
                sig_returns = ''Image''\<rparr>))
            (Some [(''DEFAULT_EXPRESSION_IMAGE'', Computed other_image),
                   (''b2'', Computed (Image_node 0 ''Image.constant'' [(''value'', Num 7)]))])
            None)"
    unfolding each2
    by (simp add: example_parseExpression example_state_def eval_nat_numeral)
  from one two show ?thesis by (rule conjI)
qed

text \<open>
  The map \<open>{DEFAULT_EXPRESSION_IMAGE: other}\<close> for another image: the reserved name is
  bound to the other image, the receiver is in no argument, and the signature has the
  reserved name twice.
\<close>

lemma expression_at_reserved_name:
  "expression example_registry example_image ''b1''
       (Some [(''DEFAULT_EXPRESSION_IMAGE'', Computed other_image)]) example_state =
     (Inr (ComputedObject (Suc (Suc (Suc 0))) ImageClass
            (Some (ExprFunction
               (Image_node (Suc 0) ''Image.parseExpression''
                  [(''expression'', Str ''b1''), (''argName'', Str ''DEFAULT_EXPRESSION_IMAGE''),
                   (''vars'', Arr [Str ''DEFAULT_EXPRESSION_IMAGE'', Str ''DEFAULT_EXPRESSION_IMAGE''])])
               (expression_signature [''DEFAULT_EXPRESSION_IMAGE'', ''DEFAULT_EXPRESSION_IMAGE''])))
            (Some [(''DEFAULT_EXPRESSION_IMAGE'', Computed other_image)])
            None),
      (initialize example_registry example_state)\<lparr>next_id := Suc (Suc (Suc (Suc 0)))\<rparr>)"
proof -
  let ?D = "''DEFAULT_EXPRESSION_IMAGE''"
  let ?body = "Image_node (Suc 0) ''Image.parseExpression''
                  [(''expression'', Str ''b1''), (''argName'', Str ?D), (''vars'', Arr [Str ?D, Str ?D])]"
  let ?sig = "expression_signature [?D, ?D]"
  have other: "klass other_image = ImageClass" by (simp add: other_image_def)
  have sig: "getSignature example_registry (ExprFunction ?body ?sig) = Inr ?sig"
    by (simp add: getSignature_def)
  have all: "list_all (promotes_to_itself [(?D, Computed other_image)]) (sig_args ?sig)"
    by (simp add: expression_signature_def promotes_to_itself_def other_image_def)
  have known: "list_all (\<lambda>k. k \<in> set (map arg_name (sig_args ?sig)))
                 (map fst [(?D, Computed other_image)])"
    by (simp add: expression_signature_def)
  have ret: "sig_returns ?sig = ''Image''" by (simp add: expression_signature_def)
  have bound: "bind_args (sig_args ?sig) [(?D, Computed other_image)] []
                 = [(?D, Computed other_image)]"
    by (simp add: expression_signature_def)
  show ?thesis
    by (simp add: expression_def Let_def ee_Image_instance [OF other] example_parseExpression
          Function_apply_unchanged [OF sig all known ret] bound example_state_def)
qed

theorem expression_reserved_name_counterexample:
  "fst (expression example_registry example_image ''b1''
          (Some [(''DEFAULT_EXPRESSION_IMAGE'', Computed other_image)]) example_state) =
     Inr (ComputedObject 3 ImageClass
            (Some (ExprFunction
               (Image_node 1 ''Image.parseExpression''
                  [(''expression'', Str ''b1''), (''argName'', Str ''DEFAULT_EXPRESSION_IMAGE''),
                   (''vars'', Arr [Str ''DEFAULT_EXPRESSION_IMAGE'', Str ''DEFAULT_EXPRESSION_IMAGE''])])
               (expression_signature [''DEFAULT_EXPRESSION_IMAGE'', ''DEFAULT_EXPRESSION_IMAGE''])))
            (Some [(''DEFAULT_EXPRESSION_IMAGE'', Computed other_image)])
            None)
   \<and> other_image \<noteq> example_image"
  unfolding expression_at_reserved_name
  by (simp add: example_image_def other_image_def Image_node_def eval_nat_numeral)

end
